theory Spec2Isabelle
  imports Main "HOL-Library.Word" "HOL-Library.Monad_Syntax" "HOL-Library.Sublist"
begin

unbundle bit_operations_syntax

section \<open>Data model of AppleAPIC.cpp\<close>

text \<open>
  The I/O APIC driver keeps an in-memory table of 64-bit redirection entries, one per input
  pin, and writes entries to the device through two indirect registers. The model threads
  the controller object through every method as an explicit state. A method that reads or
  writes an array element outside the allocated array, dereferences a null table or fails an
  \<open>assert\<close> has no defined result: the model returns \<open>None\<close> there, and \<open>Some\<close> of the
  returned value and the new state otherwise.
\<close>

text \<open>\<open>struct VectorEntry { UInt32 l32; UInt32 h32; }\<close>: one redirection-table entry.\<close>

record VectorEntry =
  l32 :: "32 word"
  h32 :: "32 word"

text \<open>The \<open>IOReturn\<close> codes that occur in the file.\<close>

datatype IOReturn =
    kIOReturnSuccess
  | kIOReturnError
  | kIOReturnBadArgument
  | kIOReturnNotFound

text \<open>
  The per-vector runtime state of the superclass (\<open>IOInterruptVector\<close>): the flags that
  \<open>handleInterrupt\<close> reads and writes. The flags are \<open>char\<close> fields holding 0 or 1.
\<close>

record IOInterruptVector =
  interruptActive :: bool
  interruptDisabledSoft :: bool
  interruptDisabledHard :: bool
  interruptRegistered :: bool

text \<open>
  What the driver does to the outside world, in the order it does it: taking and releasing
  \<open>_apicLock\<close> (the release yields the \<open>IOReturn\<close> that \<open>writeVectorEntry\<close> returns), the
  indirect register writes \<open>indexWrite(index, value)\<close>, the port writes to the legacy 8259
  controllers, and the calls of a vector's handler.
\<close>

datatype pic_base = kPIC1BasePort | kPIC2BasePort

datatype io_port = kPIC_OCW1 pic_base

datatype event =
    Lock
  | Unlock IOReturn
  | IndexWrite nat "32 word"
  | Outb io_port "8 word"
  | HandlerCall nat

text \<open>
  The controller object. \<open>_vectorBase\<close> and \<open>_vectorCount\<close> are read from an unsigned
  32-bit property and from an 8-bit register field; they are natural numbers here, and the
  truncation to 32 bits is written where a value is stored into an entry. \<open>_vectorTable\<close>
  is a pointer that is null until \<open>start\<close> allocates \<open>_vectorCount\<close> entries. \<open>vectors\<close> is
  the superclass's array of per-vector state. \<open>events\<close> is the history of external effects,
  oldest first.
\<close>

record AppleAPIC =
  vectorBase :: nat
  vectorCount :: nat
  destinationAddress :: "32 word"
  apicIDRegister :: "32 word"
  vectorTable :: "VectorEntry list option"
  vectors :: "IOInterruptVector list"
  events :: "event list"

text \<open>
  What the file uses and does not define. \<open>IOSimpleLockUnlockEnableInterruptRV\<close> yields the
  result of a write step; its value may depend on everything done to the device so far.
  \<open>DATA_TO_FLAGS\<close> extracts the flags word of an interrupt specifier, and the four
  \<open>kInterrupt...\<close> constants decode it. \<open>vector_handler n\<close> is the handler registered for
  vector \<open>n\<close>, which may change the controller object in any way.
\<close>

record platform =
  IOSimpleLockUnlockEnableInterruptRV :: "event list \<Rightarrow> IOReturn"
  DATA_TO_FLAGS :: "8 word list \<Rightarrow> 32 word"
  kInterruptTriggerModeMask :: "32 word"
  kInterruptTriggerModeEdge :: "32 word"
  kInterruptPolarityMask :: "32 word"
  kInterruptPolarityHigh :: "32 word"
  vector_handler :: "nat \<Rightarrow> AppleAPIC \<Rightarrow> AppleAPIC"

section \<open>Register indices and the redirection-entry layout\<close>

text \<open>
  Modelled from the spec: the header AppleAPIC.h, which declares the register indices and
  the \<open>kRTLO...\<close>/\<open>kRTHI...\<close> constants, is not among the sources. The spec fixes the entry
  encoding as the device's documented bit layout (low word: vector number, delivery mode,
  destination mode, polarity, trigger mode, mask; high word: destination processor ID, at
  most 255). The values below are that layout: vector number in bits 0-7, delivery mode in
  bits 8-10, destination mode in bit 11, input polarity in bit 13, trigger mode in bit 15,
  mask in bit 16 of the low word, destination in bits 24-31 of the high word. They agree
  with every use in the file: \<open>l32 & kRTLOTriggerModeLevel\<close> and \<open>l32 & kRTLOInputPolarityLow\<close>
  are tested as truth values, \<open>|= kRTLOMaskDisabled\<close> masks, \<open>&= ~kRTLOMaskMask\<close> unmasks,
  and \<open>dumpRegisters\<close> reads the table from index 0x10 in steps of two.
\<close>

definition kIndexID :: nat where "kIndexID = 0x00"
definition kIndexRTLO :: nat where "kIndexRTLO = 0x10"
definition kIndexRTHI :: nat where "kIndexRTHI = 0x11"

definition kRTLOVectorNumberMask :: "32 word" where "kRTLOVectorNumberMask = 0x000000FF"
definition kRTLOVectorNumberShift :: nat where "kRTLOVectorNumberShift = 0"

definition kRTLODeliveryModeMask :: "32 word" where "kRTLODeliveryModeMask = 0x00000700"
definition kRTLODeliveryModeShift :: nat where "kRTLODeliveryModeShift = 8"
definition kRTLODeliveryModeFixed :: "32 word" where
  "kRTLODeliveryModeFixed = push_bit kRTLODeliveryModeShift 0"

definition kRTLODestinationModeMask :: "32 word" where "kRTLODestinationModeMask = 0x00000800"
definition kRTLODestinationModeShift :: nat where "kRTLODestinationModeShift = 11"
definition kRTLODestinationModePhysical :: "32 word" where
  "kRTLODestinationModePhysical = push_bit kRTLODestinationModeShift 0"

definition kRTLOInputPolarityMask :: "32 word" where "kRTLOInputPolarityMask = 0x00002000"
definition kRTLOInputPolarityShift :: nat where "kRTLOInputPolarityShift = 13"
definition kRTLOInputPolarityHigh :: "32 word" where
  "kRTLOInputPolarityHigh = push_bit kRTLOInputPolarityShift 0"
definition kRTLOInputPolarityLow :: "32 word" where
  "kRTLOInputPolarityLow = push_bit kRTLOInputPolarityShift 1"

definition kRTLOTriggerModeMask :: "32 word" where "kRTLOTriggerModeMask = 0x00008000"
definition kRTLOTriggerModeShift :: nat where "kRTLOTriggerModeShift = 15"
definition kRTLOTriggerModeEdge :: "32 word" where
  "kRTLOTriggerModeEdge = push_bit kRTLOTriggerModeShift 0"
definition kRTLOTriggerModeLevel :: "32 word" where
  "kRTLOTriggerModeLevel = push_bit kRTLOTriggerModeShift 1"

definition kRTLOMaskMask :: "32 word" where "kRTLOMaskMask = 0x00010000"
definition kRTLOMaskShift :: nat where "kRTLOMaskShift = 16"
definition kRTLOMaskEnabled :: "32 word" where "kRTLOMaskEnabled = 0"
definition kRTLOMaskDisabled :: "32 word" where "kRTLOMaskDisabled = 0x00010000"

definition kRTHIDestinationMask :: "32 word" where "kRTHIDestinationMask = 0xFF000000"
definition kRTHIDestinationShift :: nat where "kRTHIDestinationShift = 24"

text \<open>\<open>#define GET_FIELD(v, f) (((v) & (f ## Mask)) >> (f ## Shift))\<close>\<close>

definition GET_FIELD :: "32 word \<Rightarrow> 32 word \<Rightarrow> nat \<Rightarrow> 32 word" where
  "GET_FIELD v fMask fShift = drop_bit fShift (v AND fMask)"

text \<open>\<open>#define PIC_TO_SYS_VECTOR(pv) ((pv) + _vectorBase)\<close>\<close>

definition PIC_TO_SYS_VECTOR :: "AppleAPIC \<Rightarrow> nat \<Rightarrow> nat" where
  "PIC_TO_SYS_VECTOR s pv = pv + vectorBase s"

text \<open>\<open>#define SYS_TO_PIC_VECTOR(sv) ((sv) - _vectorBase)\<close>, on the signed interrupt number.\<close>

definition SYS_TO_PIC_VECTOR :: "AppleAPIC \<Rightarrow> int \<Rightarrow> int" where
  "SYS_TO_PIC_VECTOR s sv = sv - int (vectorBase s)"

section \<open>Array accesses\<close>

text \<open>\<open>_vectorTable[i]\<close> read: undefined for a null table and outside the allocation.\<close>

definition tableEntry :: "AppleAPIC \<Rightarrow> nat \<Rightarrow> VectorEntry option" where
  "tableEntry s i =
     (case vectorTable s of
        None \<Rightarrow> None
      | Some t \<Rightarrow> if i < length t then Some (t ! i) else None)"

text \<open>\<open>_vectorTable[i] = e\<close>.\<close>

definition setTableEntry :: "AppleAPIC \<Rightarrow> nat \<Rightarrow> VectorEntry \<Rightarrow> AppleAPIC option" where
  "setTableEntry s i e =
     (case vectorTable s of
        None \<Rightarrow> None
      | Some t \<Rightarrow> if i < length t then Some (s\<lparr>vectorTable := Some (t[i := e])\<rparr>) else None)"

text \<open>\<open>vectors[i]\<close> read and update.\<close>

definition vectorAt :: "AppleAPIC \<Rightarrow> nat \<Rightarrow> IOInterruptVector option" where
  "vectorAt s i = (if i < length (vectors s) then Some (vectors s ! i) else None)"

definition setVector :: "AppleAPIC \<Rightarrow> nat \<Rightarrow> IOInterruptVector \<Rightarrow> AppleAPIC option" where
  "setVector s i v =
     (if i < length (vectors s) then Some (s\<lparr>vectors := (vectors s)[i := v]\<rparr>) else None)"

section \<open>Register access\<close>

definition emit :: "event \<Rightarrow> AppleAPIC \<Rightarrow> AppleAPIC" where
  "emit e s = s\<lparr>events := events s @ [e]\<rparr>"

text \<open>
  Modelled from the spec: \<open>indexWrite\<close> is declared in the missing header AppleAPIC.h. The
  spec's register access layer: write the target index to the index register, then the
  value to the data register. The pair is recorded as one event. The port write \<open>outb\<close>
  and the lock calls belong to the kernel; each is recorded as an event, and the unlock
  yields the result that the platform gives for the history so far.
\<close>

definition indexWrite :: "nat \<Rightarrow> 32 word \<Rightarrow> AppleAPIC \<Rightarrow> AppleAPIC" where
  "indexWrite index v s = emit (IndexWrite index v) s"

definition outb :: "io_port \<Rightarrow> 8 word \<Rightarrow> AppleAPIC \<Rightarrow> AppleAPIC" where
  "outb port v s = emit (Outb port v) s"

definition IOSimpleLockLockDisableInterrupt :: "AppleAPIC \<Rightarrow> AppleAPIC" where
  "IOSimpleLockLockDisableInterrupt s = emit Lock s"

definition unlockRV :: "platform \<Rightarrow> AppleAPIC \<Rightarrow> IOReturn \<times> AppleAPIC" where
  "unlockRV P s =
     (let r = IOSimpleLockUnlockEnableInterruptRV P (events s) in (r, emit (Unlock r) s))"

text \<open>
  \<open>writeVectorEntry(vectorNumber, entry)\<close>: writes the caller's entry to the device and
  leaves the stored table alone.
\<close>

definition writeVectorEntry_entry ::
  "platform \<Rightarrow> AppleAPIC \<Rightarrow> nat \<Rightarrow> VectorEntry \<Rightarrow> IOReturn \<times> AppleAPIC" where
  "writeVectorEntry_entry P s vectorNumber entry =
     (let s1 = IOSimpleLockLockDisableInterrupt s;
          s2 = indexWrite (kIndexRTLO + vectorNumber * 2) (l32 entry) s1;
          s3 = indexWrite (kIndexRTHI + vectorNumber * 2) (h32 entry) s2
      in unlockRV P s3)"

text \<open>\<open>writeVectorEntry(vectorNumber)\<close>: writes the stored entry to the device.\<close>

definition writeVectorEntry ::
  "platform \<Rightarrow> AppleAPIC \<Rightarrow> nat \<Rightarrow> (IOReturn \<times> AppleAPIC) option" where
  "writeVectorEntry P s vectorNumber = do {
     lo \<leftarrow> map_option l32 (tableEntry s vectorNumber);
     hi \<leftarrow> map_option h32 (tableEntry s vectorNumber);
     let s1 = IOSimpleLockLockDisableInterrupt s;
     let s2 = indexWrite (kIndexRTLO + vectorNumber * 2) lo s1;
     let s3 = indexWrite (kIndexRTHI + vectorNumber * 2) hi s2;
     Some (unlockRV P s3)
   }"

text \<open>
  Modelled from the spec: \<open>disableVectorEntry\<close> and \<open>enableVectorEntry\<close> are declared in
  the missing header AppleAPIC.h. The spec's \<open>mask(index)\<close> and \<open>unmask(index)\<close>: set or
  clear the mask bit in the stored entry and write through.
\<close>

definition disableVectorEntry ::
  "platform \<Rightarrow> AppleAPIC \<Rightarrow> nat \<Rightarrow> (IOReturn \<times> AppleAPIC) option" where
  "disableVectorEntry P s vectorNumber = do {
     e \<leftarrow> tableEntry s vectorNumber;
     s1 \<leftarrow> setTableEntry s vectorNumber (e\<lparr>l32 := l32 e OR kRTLOMaskDisabled\<rparr>);
     writeVectorEntry P s1 vectorNumber
   }"

definition enableVectorEntry ::
  "platform \<Rightarrow> AppleAPIC \<Rightarrow> nat \<Rightarrow> (IOReturn \<times> AppleAPIC) option" where
  "enableVectorEntry P s vectorNumber = do {
     e \<leftarrow> tableEntry s vectorNumber;
     s1 \<leftarrow> setTableEntry s vectorNumber (e\<lparr>l32 := l32 e AND NOT kRTLOMaskDisabled\<rparr>);
     writeVectorEntry P s1 vectorNumber
   }"

section \<open>Loops over the vectors\<close>

text \<open>
  \<open>for (vectorNumber = 0; vectorNumber < _vectorCount; vectorNumber++) result = body\<close>:
  the body runs for each index in turn on the state the previous one left, \<open>result\<close>
  keeps the value of the last run, and an undefined step makes the whole loop undefined.
  No loop body assigns to \<open>_vectorCount\<close>, so the bound is the one read at entry.
\<close>

primrec forVectors ::
  "(AppleAPIC \<Rightarrow> nat \<Rightarrow> (IOReturn \<times> AppleAPIC) option) \<Rightarrow> nat list \<Rightarrow>
   IOReturn \<times> AppleAPIC \<Rightarrow> (IOReturn \<times> AppleAPIC) option" where
  "forVectors body [] rs = Some rs"
| "forVectors body (vectorNumber # rest) rs =
     (case body (snd rs) vectorNumber of
        None \<Rightarrow> None
      | Some rs' \<Rightarrow> forVectors body rest rs')"

section \<open>The methods\<close>

text \<open>\<open>resetVectorTable\<close>: every entry gets its masked default and is written through.\<close>

definition resetVectorTable_body ::
  "platform \<Rightarrow> AppleAPIC \<Rightarrow> nat \<Rightarrow> (IOReturn \<times> AppleAPIC) option" where
  "resetVectorTable_body P s vectorNumber = do {
     s1 \<leftarrow> setTableEntry s vectorNumber
       \<lparr>l32 = (word_of_nat (PIC_TO_SYS_VECTOR s vectorNumber) AND kRTLOVectorNumberMask) OR
              (kRTLODeliveryModeFixed OR kRTLODestinationModePhysical OR kRTLOMaskDisabled),
        h32 = push_bit kRTHIDestinationShift (destinationAddress s) AND kRTHIDestinationMask\<rparr>;
     writeVectorEntry P s1 vectorNumber
   }"

definition resetVectorTable :: "platform \<Rightarrow> AppleAPIC \<Rightarrow> (IOReturn \<times> AppleAPIC) option" where
  "resetVectorTable P s =
     forVectors (resetVectorTable_body P) [0..<vectorCount s] (kIOReturnError, s)"

text \<open>
  \<open>initVector\<close>: \<open>vectorData\<close> is the bytes of the interrupt specifier of the vector's
  source. A specifier shorter than \<open>sizeof(UInt64)\<close> leaves everything as it is.
\<close>

definition initVector :: "platform \<Rightarrow> AppleAPIC \<Rightarrow> nat \<Rightarrow> 8 word list \<Rightarrow> AppleAPIC option" where
  "initVector P s vectorNumber vectorData =
     (if length vectorData < 8 then Some s
      else do {
        let vectorFlags = DATA_TO_FLAGS P vectorData;
        e \<leftarrow> tableEntry s vectorNumber;
        let l1 = l32 e AND NOT kRTLOTriggerModeMask;
        let l2 = (if vectorFlags AND kInterruptTriggerModeMask P = kInterruptTriggerModeEdge P
                  then l1 OR kRTLOTriggerModeEdge
                  else l1 OR kRTLOTriggerModeLevel);
        let l3 = l2 AND NOT kRTLOInputPolarityMask;
        let l4 = (if vectorFlags AND kInterruptPolarityMask P = kInterruptPolarityHigh P
                  then l3 OR kRTLOInputPolarityHigh
                  else l3 OR kRTLOInputPolarityLow);
        s1 \<leftarrow> setTableEntry s vectorNumber (e\<lparr>l32 := l4\<rparr>);
        rs \<leftarrow> writeVectorEntry P s1 vectorNumber;
        Some (snd rs)
      })"

text \<open>\<open>disableVectorHard\<close> and \<open>enableVector\<close>: the result is only logged.\<close>

definition disableVectorHard :: "platform \<Rightarrow> AppleAPIC \<Rightarrow> nat \<Rightarrow> AppleAPIC option" where
  "disableVectorHard P s vectorNumber = map_option snd (disableVectorEntry P s vectorNumber)"

definition enableVector :: "platform \<Rightarrow> AppleAPIC \<Rightarrow> nat \<Rightarrow> AppleAPIC option" where
  "enableVector P s vectorNumber = map_option snd (enableVectorEntry P s vectorNumber)"

text \<open>
  \<open>handleInterrupt\<close>: \<open>source\<close> is the system interrupt number. The two \<open>assert\<close>s make a
  number outside the controller's range undefined.
\<close>

definition handleInterrupt ::
  "platform \<Rightarrow> AppleAPIC \<Rightarrow> int \<Rightarrow> (IOReturn \<times> AppleAPIC) option" where
  "handleInterrupt P s source =
     (let vectorNumber = SYS_TO_PIC_VECTOR s source in
      if \<not> (vectorNumber \<ge> 0) then None
      else if \<not> (vectorNumber < int (vectorCount s)) then None
      else do {
        let n = nat vectorNumber;
        v \<leftarrow> vectorAt s n;
        s1 \<leftarrow> setVector s n (v\<lparr>interruptActive := True\<rparr>);
        v1 \<leftarrow> vectorAt s1 n;
        s4 \<leftarrow>
          (if \<not> interruptDisabledSoft v1 \<and> interruptRegistered v1 then do {
             let s2 = vector_handler P n (emit (HandlerCall n) s1);
             v2 \<leftarrow> vectorAt s2 n;
             if interruptDisabledSoft v2 then do {
               s3 \<leftarrow> setVector s2 n (v2\<lparr>interruptDisabledHard := True\<rparr>);
               map_option snd (disableVectorEntry P s3 n)
             } else Some s2
           } else do {
             s2 \<leftarrow> setVector s1 n (v1\<lparr>interruptDisabledHard := True\<rparr>);
             map_option snd (disableVectorEntry P s2 n)
           });
        v4 \<leftarrow> vectorAt s4 n;
        s5 \<leftarrow> setVector s4 n (v4\<lparr>interruptActive := False\<rparr>);
        Some (kIOReturnSuccess, s5)
      })"

text \<open>
  \<open>resumeFromSleep\<close>: masks both legacy controllers, restores the ID register, then for
  each vector writes a masked copy of the stored entry followed by the stored entry.
\<close>

definition resumeFromSleep_body ::
  "platform \<Rightarrow> AppleAPIC \<Rightarrow> nat \<Rightarrow> (IOReturn \<times> AppleAPIC) option" where
  "resumeFromSleep_body P s vectorNumber = do {
     entry \<leftarrow> tableEntry s vectorNumber;
     let entry = entry\<lparr>l32 := l32 entry OR kRTLOMaskDisabled\<rparr>;
     let s1 = snd (writeVectorEntry_entry P s vectorNumber entry);
     writeVectorEntry P s1 vectorNumber
   }"

definition resumeFromSleep :: "platform \<Rightarrow> AppleAPIC \<Rightarrow> (IOReturn \<times> AppleAPIC) option" where
  "resumeFromSleep P s =
     (let s1 = outb (kPIC_OCW1 kPIC2BasePort) 0xFF s;
          s2 = outb (kPIC_OCW1 kPIC1BasePort) 0xFF s1;
          s3 = indexWrite kIndexID (apicIDRegister s2) s2
      in forVectors (resumeFromSleep_body P) [0..<vectorCount s3] (kIOReturnError, s3))"

text \<open>\<open>prepareForSleep\<close>: writes a masked copy of every stored entry.\<close>

definition prepareForSleep_body ::
  "platform \<Rightarrow> AppleAPIC \<Rightarrow> nat \<Rightarrow> (IOReturn \<times> AppleAPIC) option" where
  "prepareForSleep_body P s vectorNumber = do {
     entry \<leftarrow> tableEntry s vectorNumber;
     let entry = entry\<lparr>l32 := l32 entry OR kRTLOMaskDisabled\<rparr>;
     Some (writeVectorEntry_entry P s vectorNumber entry)
   }"

definition prepareForSleep :: "platform \<Rightarrow> AppleAPIC \<Rightarrow> (IOReturn \<times> AppleAPIC) option" where
  "prepareForSleep P s =
     forVectors (prepareForSleep_body P) [0..<vectorCount s] (kIOReturnError, s)"

text \<open>\<open>prepareForDeepIdle\<close>: writes an unmasked copy of the one stored entry.\<close>

definition prepareForDeepIdle ::
  "platform \<Rightarrow> AppleAPIC \<Rightarrow> nat \<Rightarrow> (IOReturn \<times> AppleAPIC) option" where
  "prepareForDeepIdle P s vectorNumber =
     (if vectorTable s \<noteq> None \<and> vectorNumber < vectorCount s then do {
        entry \<leftarrow> tableEntry s vectorNumber;
        let entry = entry\<lparr>l32 := l32 entry AND NOT kRTLOMaskMask\<rparr>;
        Some (writeVectorEntry_entry P s vectorNumber entry)
      } else Some (kIOReturnBadArgument, s))"

text \<open>
  \<open>setVectorPhysicalDestination\<close>: the bounds check, then mask, new destination, write
  through. The results of the two writes are dropped.
\<close>

definition setVectorPhysicalDestination ::
  "platform \<Rightarrow> AppleAPIC \<Rightarrow> nat \<Rightarrow> 32 word \<Rightarrow> (IOReturn \<times> AppleAPIC) option" where
  "setVectorPhysicalDestination P s vectorNumber apicID =
     (if vectorNumber \<ge> vectorCount s \<or> apicID > 255 then Some (kIOReturnBadArgument, s)
      else do {
        s1 \<leftarrow> map_option snd (disableVectorEntry P s vectorNumber);
        entry \<leftarrow> tableEntry s1 vectorNumber;
        s2 \<leftarrow> setTableEntry s1 vectorNumber
          (entry\<lparr>h32 := push_bit kRTHIDestinationShift apicID AND kRTHIDestinationMask\<rparr>);
        s3 \<leftarrow> map_option snd (writeVectorEntry P s2 vectorNumber);
        Some (kIOReturnSuccess, s3)
      })"

section \<open>Vocabulary of the properties\<close>

text \<open>
  The table as \<open>start\<close> leaves it: allocated, with \<open>_vectorCount\<close> entries.
\<close>

definition table_ok :: "AppleAPIC \<Rightarrow> bool" where
  "table_ok s = (case vectorTable s of None \<Rightarrow> False | Some t \<Rightarrow> length t = vectorCount s)"

text \<open>
  The two register writes that put an entry at a vector's position in the device's table.
\<close>

definition entryWrites :: "nat \<Rightarrow> VectorEntry \<Rightarrow> event list" where
  "entryWrites vectorNumber e =
     [IndexWrite (kIndexRTLO + vectorNumber * 2) (l32 e),
      IndexWrite (kIndexRTHI + vectorNumber * 2) (h32 e)]"

text \<open>
  The register and port accesses and handler calls of a history, without the lock events;
  and the results of its write steps, in order.
\<close>

fun is_io :: "event \<Rightarrow> bool" where
  "is_io Lock = False"
| "is_io (Unlock r) = False"
| "is_io e = True"

definition io_events :: "event list \<Rightarrow> event list" where
  "io_events evs = filter is_io evs"

fun unlock_results :: "event list \<Rightarrow> IOReturn list" where
  "unlock_results [] = []"
| "unlock_results (Unlock r # evs) = r # unlock_results evs"
| "unlock_results (e # evs) = unlock_results evs"

text \<open>
  What a loop that starts with \<open>result = kIOReturnError\<close> and overwrites \<open>result\<close> with
  each write step returns, given the results of its write steps.
\<close>

definition lastResult :: "IOReturn list \<Rightarrow> IOReturn" where
  "lastResult rs = (if rs = [] then kIOReturnError else last rs)"

text \<open>
  The result and the events of one write step of entry \<open>e\<close> at a vector, started after
  the history \<open>evs\<close>.
\<close>

definition writeResult :: "platform \<Rightarrow> event list \<Rightarrow> nat \<Rightarrow> VectorEntry \<Rightarrow> IOReturn" where
  "writeResult P evs vectorNumber e =
     IOSimpleLockUnlockEnableInterruptRV P (evs @ Lock # entryWrites vectorNumber e)"

definition writeTrace :: "platform \<Rightarrow> event list \<Rightarrow> nat \<Rightarrow> VectorEntry \<Rightarrow> event list" where
  "writeTrace P evs vectorNumber e =
     Lock # entryWrites vectorNumber e @ [Unlock (writeResult P evs vectorNumber e)]"

text \<open>
  The local copies \<open>entry.l32 |= kRTLOMaskDisabled\<close> and \<open>entry.l32 &= ~kRTLOMaskMask\<close>.
\<close>

definition maskedCopy :: "VectorEntry \<Rightarrow> VectorEntry" where
  "maskedCopy e = e\<lparr>l32 := l32 e OR kRTLOMaskDisabled\<rparr>"

definition unmaskedCopy :: "VectorEntry \<Rightarrow> VectorEntry" where
  "unmaskedCopy e = e\<lparr>l32 := l32 e AND NOT kRTLOMaskMask\<rparr>"

text \<open>
  The entry that \<open>resetVectorTable\<close> stores at a vector.
\<close>

definition defaultEntry :: "AppleAPIC \<Rightarrow> nat \<Rightarrow> VectorEntry" where
  "defaultEntry s vectorNumber =
     \<lparr>l32 = (word_of_nat (PIC_TO_SYS_VECTOR s vectorNumber) AND kRTLOVectorNumberMask) OR
            (kRTLODeliveryModeFixed OR kRTLODestinationModePhysical OR kRTLOMaskDisabled),
      h32 = push_bit kRTHIDestinationShift (destinationAddress s) AND kRTHIDestinationMask\<rparr>"

text \<open>
  Decoding: the vector-number field and the destination field by \<open>GET_FIELD\<close>, the mask
  bit by comparing the masked word with \<open>kRTLOMaskDisabled\<close>.
\<close>

definition vectorNumberField :: "VectorEntry \<Rightarrow> 32 word" where
  "vectorNumberField e = GET_FIELD (l32 e) kRTLOVectorNumberMask kRTLOVectorNumberShift"

definition destinationField :: "VectorEntry \<Rightarrow> 32 word" where
  "destinationField e = GET_FIELD (h32 e) kRTHIDestinationMask kRTHIDestinationShift"

definition isMasked :: "VectorEntry \<Rightarrow> bool" where
  "isMasked e = (l32 e AND kRTLOMaskMask = kRTLOMaskDisabled)"

text \<open>
  Two controller states with the same vector range and the same vector-number field in
  every stored entry.
\<close>

definition sameVectorNumbers :: "AppleAPIC \<Rightarrow> AppleAPIC \<Rightarrow> bool" where
  "sameVectorNumbers s s' =
     (vectorBase s' = vectorBase s \<and> vectorCount s' = vectorCount s \<and>
      map_option (map vectorNumberField) (vectorTable s') =
      map_option (map vectorNumberField) (vectorTable s))"

text \<open>
  The low word that \<open>initVector\<close> computes from the stored low word.
\<close>

definition initVector_l32 :: "platform \<Rightarrow> 8 word list \<Rightarrow> 32 word \<Rightarrow> 32 word" where
  "initVector_l32 P vectorData l =
     (let vectorFlags = DATA_TO_FLAGS P vectorData;
          l1 = l AND NOT kRTLOTriggerModeMask;
          l2 = (if vectorFlags AND kInterruptTriggerModeMask P = kInterruptTriggerModeEdge P
                then l1 OR kRTLOTriggerModeEdge else l1 OR kRTLOTriggerModeLevel);
          l3 = l2 AND NOT kRTLOInputPolarityMask
      in if vectorFlags AND kInterruptPolarityMask P = kInterruptPolarityHigh P
         then l3 OR kRTLOInputPolarityHigh else l3 OR kRTLOInputPolarityLow)"

text \<open>
  Modelled from the spec: the device is outside the sources. The register access layer
  writes a value to the register selected by an index, and entry \<open>n\<close> of the device's
  table is the register pair \<open>kIndexRTLO + 2n\<close>, \<open>kIndexRTHI + 2n\<close>. \<open>hwEntry n e evs\<close> is
  the device's entry \<open>n\<close> after the events \<open>evs\<close>, when it was \<open>e\<close> before them.
\<close>

fun applyEvent :: "nat \<Rightarrow> event \<Rightarrow> VectorEntry \<Rightarrow> VectorEntry" where
  "applyEvent vectorNumber (IndexWrite index v) e =
     (if index = kIndexRTLO + vectorNumber * 2 then e\<lparr>l32 := v\<rparr>
      else if index = kIndexRTHI + vectorNumber * 2 then e\<lparr>h32 := v\<rparr>
      else e)"
| "applyEvent vectorNumber ev e = e"

definition hwEntry :: "nat \<Rightarrow> VectorEntry \<Rightarrow> event list \<Rightarrow> VectorEntry" where
  "hwEntry vectorNumber e evs = fold (applyEvent vectorNumber) evs e"

text \<open>
  The state in which \<open>handleInterrupt\<close> calls the handler of vector \<open>n\<close>, and the state
  the handler returns.
\<close>

definition markActive :: "AppleAPIC \<Rightarrow> nat \<Rightarrow> AppleAPIC" where
  "markActive s n = s\<lparr>vectors := (vectors s)[n := (vectors s ! n)\<lparr>interruptActive := True\<rparr>]\<rparr>"

definition afterHandler :: "platform \<Rightarrow> AppleAPIC \<Rightarrow> nat \<Rightarrow> AppleAPIC" where
  "afterHandler P s n = vector_handler P n (emit (HandlerCall n) (markActive s n))"

text \<open>
  The port writes to the legacy controllers in a history.
\<close>

fun isLegacyWrite :: "event \<Rightarrow> bool" where
  "isLegacyWrite (Outb port v) = True"
| "isLegacyWrite e = False"

definition legacyWrites :: "event list \<Rightarrow> event list" where
  "legacyWrites evs = filter isLegacyWrite evs"

text \<open>
  Every register write that carries the stored entry of some vector of the table, or its
  masked or unmasked copy, to that vector's position in the device's table.
\<close>

definition entryWriteEvents :: "VectorEntry list \<Rightarrow> event list" where
  "entryWriteEvents t =
     concat (map (\<lambda>i. entryWrites i (t ! i) @ entryWrites i (maskedCopy (t ! i)) @
                       entryWrites i (unmaskedCopy (t ! i))) [0..<length t])"

section \<open>Concrete controllers\<close>

text \<open>
  A platform whose write steps all succeed and whose handlers do nothing; one whose first
  write step fails; one whose handlers set their vector's soft-disable flag.
\<close>

definition examplePlatform :: platform where
  "examplePlatform =
     \<lparr>IOSimpleLockUnlockEnableInterruptRV = (\<lambda>evs. kIOReturnSuccess),
      DATA_TO_FLAGS = (\<lambda>bytes. 0),
      kInterruptTriggerModeMask = 1,
      kInterruptTriggerModeEdge = 0,
      kInterruptPolarityMask = 2,
      kInterruptPolarityHigh = 0,
      vector_handler = (\<lambda>n s. s)\<rparr>"

definition failingPlatform :: platform where
  "failingPlatform =
     examplePlatform\<lparr>IOSimpleLockUnlockEnableInterruptRV :=
       (\<lambda>evs. if length evs = 3 then kIOReturnError else kIOReturnSuccess)\<rparr>"

definition disablingPlatform :: platform where
  "disablingPlatform =
     examplePlatform\<lparr>vector_handler :=
       (\<lambda>n s. s\<lparr>vectors := (vectors s)[n := (vectors s ! n)\<lparr>interruptDisabledSoft := True\<rparr>]\<rparr>)\<rparr>"

text \<open>
  A controller for the vectors 0x40 and 0x41: the first entry masked, the second unmasked,
  level triggered, active low, routed to processor 1; only the second vector has a handler.
  \<open>wideAPIC\<close> and \<open>baseAPIC\<close> are controllers whose vector range reaches beyond 255.
\<close>

definition idleVector :: IOInterruptVector where
  "idleVector = \<lparr>interruptActive = False, interruptDisabledSoft = False,
     interruptDisabledHard = False, interruptRegistered = False\<rparr>"

definition exampleTable :: "VectorEntry list" where
  "exampleTable = [\<lparr>l32 = 0x10040, h32 = 0\<rparr>, \<lparr>l32 = 0xA041, h32 = 0x01000000\<rparr>]"

definition exampleAPIC :: AppleAPIC where
  "exampleAPIC =
     \<lparr>vectorBase = 0x40, vectorCount = 2, destinationAddress = 0, apicIDRegister = 0x02000000,
      vectorTable = Some exampleTable,
      vectors = [idleVector, idleVector\<lparr>interruptRegistered := True\<rparr>],
      events = []\<rparr>"

definition wideAPIC :: AppleAPIC where
  "wideAPIC = exampleAPIC\<lparr>vectorBase := 255\<rparr>"

definition baseAPIC :: AppleAPIC where
  "baseAPIC = exampleAPIC\<lparr>vectorBase := 256, vectorCount := 1,
     vectorTable := Some [\<lparr>l32 = 0, h32 = 0\<rparr>], vectors := [idleVector]\<rparr>"

text \<open>
  An interrupt specifier of eight bytes.
\<close>

definition exampleData :: "8 word list" where
  "exampleData = [0x01, 0, 0, 0, 0x03, 0, 0, 0]"

section \<open>Loops and write steps\<close>

lemma forVectors_snoc:
  "forVectors body (xs @ [x]) rs =
     (case forVectors body xs rs of None \<Rightarrow> None | Some rs' \<Rightarrow> body (snd rs') x)"
  by (induction xs arbitrary: rs) (auto split: option.splits)

lemma forVectors_upt:
  assumes init: "I 0 rs0"
    and step: "\<And>k rs. k < n \<Longrightarrow> I k rs \<Longrightarrow> \<exists>rs'. body (snd rs) k = Some rs' \<and> I (Suc k) rs'"
  shows "\<exists>rs'. forVectors body [0..<n] rs0 = Some rs' \<and> I n rs'"
proof -
  have "m \<le> n \<Longrightarrow> \<exists>rs'. forVectors body [0..<m] rs0 = Some rs' \<and> I m rs'" for m
  proof (induction m)
    case 0
    then show ?case using init by simp
  next
    case (Suc m)
    then obtain rs where rs: "forVectors body [0..<m] rs0 = Some rs" "I m rs" by auto
    from Suc.prems have "m < n" by simp
    from step [OF this rs(2)] obtain rs' where "body (snd rs) m = Some rs'" "I (Suc m) rs'"
      by blast
    then show ?case using rs(1) by (simp add: forVectors_snoc)
  qed
  then show ?thesis by simp
qed

lemma unlock_results_append [simp]:
  "unlock_results (xs @ ys) = unlock_results xs @ unlock_results ys"
  by (induction xs rule: unlock_results.induct) simp_all

lemma io_events_append [simp]: "io_events (xs @ ys) = io_events xs @ io_events ys"
  by (simp add: io_events_def)

lemma writeVectorEntry_entry_eq:
  "writeVectorEntry_entry P s vn e =
     (writeResult P (events s) vn e, s\<lparr>events := events s @ writeTrace P (events s) vn e\<rparr>)"
  by (simp add: writeVectorEntry_entry_def unlockRV_def IOSimpleLockLockDisableInterrupt_def
      indexWrite_def emit_def entryWrites_def Let_def writeResult_def writeTrace_def)

lemma writeVectorEntry_eq:
  "writeVectorEntry P s vn =
     (case tableEntry s vn of None \<Rightarrow> None | Some e \<Rightarrow> Some (writeVectorEntry_entry P s vn e))"
  by (simp add: writeVectorEntry_def writeVectorEntry_entry_def Let_def split: option.splits)

lemma tableEntry_events [simp]: "tableEntry (s\<lparr>events := evs\<rparr>) i = tableEntry s i"
  by (simp add: tableEntry_def)

lemma tableEntry_ok:
  "vectorTable s = Some t \<Longrightarrow> i < length t \<Longrightarrow> tableEntry s i = Some (t ! i)"
  by (simp add: tableEntry_def)

lemma io_events_entryWrites [simp]: "io_events (entryWrites vn e) = entryWrites vn e"
  by (simp add: io_events_def entryWrites_def)

lemma io_events_Lock [simp]: "io_events (Lock # evs) = io_events evs"
  by (simp add: io_events_def)

lemma io_events_Unlock [simp]: "io_events (Unlock r # evs) = io_events evs"
  by (simp add: io_events_def)

lemma io_events_Nil [simp]: "io_events [] = []"
  by (simp add: io_events_def)

lemma unlock_results_entryWrites [simp]: "unlock_results (entryWrites vn e) = []"
  by (simp add: entryWrites_def)

lemma lastResult_snoc [simp]: "lastResult (rs @ [r]) = r"
  by (simp add: lastResult_def)

lemma lastResult_single [simp]: "lastResult [r] = r"
  by (simp add: lastResult_def)

lemma lastResult_append [simp]: "rs' \<noteq> [] \<Longrightarrow> lastResult (rs @ rs') = lastResult rs'"
  by (simp add: lastResult_def)

text \<open>
  A loop whose body leaves the controller as it is and only adds events.
\<close>

lemma forVectors_events:
  assumes step: "\<And>k evs. k < n \<Longrightarrow>
      \<exists>new. body (s\<lparr>events := events s @ evs\<rparr>) k =
               Some (lastResult (unlock_results new), s\<lparr>events := events s @ evs @ new\<rparr>) \<and>
            io_events new = W k \<and> length (unlock_results new) = Suc c"
  shows "\<exists>evs. forVectors body [0..<n] (kIOReturnError, s) =
            Some (lastResult (unlock_results evs), s\<lparr>events := events s @ evs\<rparr>) \<and>
          io_events evs = concat (map W [0..<n]) \<and>
          length (unlock_results evs) = Suc c * n"
proof -
  define I where "I = (\<lambda>k (rs :: IOReturn \<times> AppleAPIC). \<exists>evs.
      rs = (lastResult (unlock_results evs), s\<lparr>events := events s @ evs\<rparr>) \<and>
      io_events evs = concat (map W [0..<k]) \<and>
      length (unlock_results evs) = Suc c * k)"
  have init: "I 0 (kIOReturnError, s)"
    unfolding I_def by (rule exI [of _ "[]"]) (simp add: lastResult_def)
  have step': "\<exists>rs'. body (snd rs) k = Some rs' \<and> I (Suc k) rs'"
    if k: "k < n" and inv: "I k rs" for k rs
  proof -
    from inv obtain evs where rs: "rs = (lastResult (unlock_results evs), s\<lparr>events := events s @ evs\<rparr>)"
      and io: "io_events evs = concat (map W [0..<k])"
      and n: "length (unlock_results evs) = Suc c * k"
      unfolding I_def by blast
    from step [OF k, of evs] obtain new where
      body: "body (s\<lparr>events := events s @ evs\<rparr>) k =
               Some (lastResult (unlock_results new), s\<lparr>events := events s @ evs @ new\<rparr>)"
      and new: "io_events new = W k" "length (unlock_results new) = Suc c"
      by blast
    from new(2) have ne: "unlock_results new \<noteq> []" by auto
    have "I (Suc k) (lastResult (unlock_results new), s\<lparr>events := events s @ evs @ new\<rparr>)"
      unfolding I_def
      by (rule exI [of _ "evs @ new"]) (simp add: io n new ne)
    then show ?thesis using body by (simp add: rs)
  qed
  from forVectors_upt [where I = I and body = body and n = n, OF init step']
  show ?thesis unfolding I_def by blast
qed

lemma io_events_writeTrace [simp]: "io_events (writeTrace P evs vn e) = entryWrites vn e"
  by (simp add: writeTrace_def)

lemma unlock_results_writeTrace [simp]:
  "unlock_results (writeTrace P evs vn e) = [writeResult P evs vn e]"
  by (simp add: writeTrace_def)

section \<open>The power transitions\<close>

lemma prepareForSleep_run:
  assumes t: "vectorTable s = Some t" and len: "length t = vectorCount s"
  shows "\<exists>evs. prepareForSleep P s =
            Some (lastResult (unlock_results evs), s\<lparr>events := events s @ evs\<rparr>) \<and>
          io_events evs = concat (map (\<lambda>i. entryWrites i (maskedCopy (t ! i))) [0..<vectorCount s]) \<and>
          length (unlock_results evs) = vectorCount s"
proof -
  have "\<exists>new. prepareForSleep_body P (s\<lparr>events := events s @ evs\<rparr>) k =
               Some (lastResult (unlock_results new), s\<lparr>events := events s @ evs @ new\<rparr>) \<and>
            io_events new = entryWrites k (maskedCopy (t ! k)) \<and> length (unlock_results new) = Suc 0"
    if k: "k < vectorCount s" for k evs
  proof -
    have e: "tableEntry s k = Some (t ! k)" using t len k by (simp add: tableEntry_ok)
    show ?thesis
      by (rule exI [of _ "writeTrace P (events s @ evs) k (maskedCopy (t ! k))"])
         (simp add: prepareForSleep_body_def maskedCopy_def e writeVectorEntry_entry_eq Let_def)
  qed
  from forVectors_events [of "vectorCount s" "prepareForSleep_body P" s _ 0, OF this]
  show ?thesis by (simp add: prepareForSleep_def)
qed

lemma resumeFromSleep_run:
  assumes t: "vectorTable s = Some t" and len: "length t = vectorCount s"
  shows "\<exists>evs. resumeFromSleep P s =
            Some (lastResult (unlock_results evs), s\<lparr>events := events s @ evs\<rparr>) \<and>
          io_events evs =
            [Outb (kPIC_OCW1 kPIC2BasePort) 0xFF, Outb (kPIC_OCW1 kPIC1BasePort) 0xFF,
             IndexWrite kIndexID (apicIDRegister s)] @
            concat (map (\<lambda>i. entryWrites i (maskedCopy (t ! i)) @ entryWrites i (t ! i))
                      [0..<vectorCount s]) \<and>
          length (unlock_results evs) = 2 * vectorCount s"
proof -
  define pre where "pre = [Outb (kPIC_OCW1 kPIC2BasePort) 0xFF, Outb (kPIC_OCW1 kPIC1BasePort) 0xFF,
             IndexWrite kIndexID (apicIDRegister s)]"
  define s3 where "s3 = s\<lparr>events := events s @ pre\<rparr>"
  have s3: "vectorTable s3 = Some t" "vectorCount s3 = vectorCount s"
    by (simp_all add: s3_def t)
  have "\<exists>new. resumeFromSleep_body P (s3\<lparr>events := events s3 @ evs\<rparr>) k =
               Some (lastResult (unlock_results new), s3\<lparr>events := events s3 @ evs @ new\<rparr>) \<and>
            io_events new = entryWrites k (maskedCopy (t ! k)) @ entryWrites k (t ! k) \<and>
            length (unlock_results new) = Suc 1"
    if k: "k < vectorCount s" for k evs
  proof -
    have e: "tableEntry s3 k = Some (t ! k)" using s3 len k by (simp add: tableEntry_ok)
    show ?thesis
      by (rule exI [of _ "writeTrace P (events s3 @ evs) k (maskedCopy (t ! k)) @
            writeTrace P (events s3 @ evs @ writeTrace P (events s3 @ evs) k (maskedCopy (t ! k))) k (t ! k)"])
         (simp add: resumeFromSleep_body_def maskedCopy_def e writeVectorEntry_entry_eq
            writeVectorEntry_eq Let_def lastResult_def)
  qed
  from forVectors_events [of "vectorCount s" "resumeFromSleep_body P" s3 _ 1, OF this]
  obtain evs where run: "forVectors (resumeFromSleep_body P) [0..<vectorCount s] (kIOReturnError, s3) =
     Some (lastResult (unlock_results evs), s3\<lparr>events := events s3 @ evs\<rparr>)"
    and io: "io_events evs = concat (map (\<lambda>i. entryWrites i (maskedCopy (t ! i)) @ entryWrites i (t ! i))
                      [0..<vectorCount s])"
    and n: "length (unlock_results evs) = Suc 1 * vectorCount s"
    by blast
  have start: "resumeFromSleep P s =
      forVectors (resumeFromSleep_body P) [0..<vectorCount s] (kIOReturnError, s3)"
    by (simp add: resumeFromSleep_def outb_def indexWrite_def emit_def s3_def pre_def)
  have pre: "io_events pre = pre" "unlock_results pre = []"
    by (simp_all add: pre_def io_events_def)
  show ?thesis
    unfolding start run pre_def [symmetric]
    by (rule exI [of _ "pre @ evs"]) (simp add: io n pre s3_def)
qed

section \<open>Reset\<close>

lemma setTableEntry_ok:
  "vectorTable s = Some t \<Longrightarrow> i < length t \<Longrightarrow>
   setTableEntry s i e = Some (s\<lparr>vectorTable := Some (t[i := e])\<rparr>)"
  by (simp add: setTableEntry_def)

lemma update_prefix_drop:
  assumes "k < length t" and "length xs = k"
  shows "(xs @ drop k t)[k := v] = (xs @ [v]) @ drop (Suc k) t"
proof -
  from assms(1) have "drop k t = t ! k # drop (Suc k) t" by (simp add: Cons_nth_drop_Suc)
  then show ?thesis using assms(2) by (simp add: list_update_append)
qed

lemma resetVectorTable_run:
  assumes t: "vectorTable s = Some t" and len: "length t = vectorCount s"
  shows "\<exists>evs. resetVectorTable P s =
            Some (lastResult (unlock_results evs),
                  s\<lparr>vectorTable := Some (map (defaultEntry s) [0..<vectorCount s]),
                    events := events s @ evs\<rparr>) \<and>
          io_events evs = concat (map (\<lambda>i. entryWrites i (defaultEntry s i)) [0..<vectorCount s]) \<and>
          length (unlock_results evs) = vectorCount s"
proof -
  define I where "I = (\<lambda>k (rs :: IOReturn \<times> AppleAPIC). \<exists>evs.
      rs = (lastResult (unlock_results evs),
            s\<lparr>vectorTable := Some (map (defaultEntry s) [0..<k] @ drop k t),
              events := events s @ evs\<rparr>) \<and>
      io_events evs = concat (map (\<lambda>i. entryWrites i (defaultEntry s i)) [0..<k]) \<and>
      length (unlock_results evs) = k)"
  have init: "I 0 (kIOReturnError, s)"
    unfolding I_def by (rule exI [of _ "[]"]) (simp add: lastResult_def t [symmetric])
  have step: "\<exists>rs'. resetVectorTable_body P (snd rs) k = Some rs' \<and> I (Suc k) rs'"
    if k: "k < vectorCount s" and inv: "I k rs" for k rs
  proof -
    from inv obtain evs where
      rs: "rs = (lastResult (unlock_results evs),
            s\<lparr>vectorTable := Some (map (defaultEntry s) [0..<k] @ drop k t),
              events := events s @ evs\<rparr>)"
      and io: "io_events evs = concat (map (\<lambda>i. entryWrites i (defaultEntry s i)) [0..<k])"
      and n: "length (unlock_results evs) = k"
      unfolding I_def by blast
    define sk where "sk = s\<lparr>vectorTable := Some (map (defaultEntry s) [0..<k] @ drop k t),
              events := events s @ evs\<rparr>"
    define t' where "t' = map (defaultEntry s) [0..<Suc k] @ drop (Suc k) t"
    have tk: "vectorTable sk = Some (map (defaultEntry s) [0..<k] @ drop k t)"
      by (simp add: sk_def)
    have lk: "k < length (map (defaultEntry s) [0..<k] @ drop k t)" using k len by simp
    have upd: "(map (defaultEntry s) [0..<k] @ drop k t)[k := defaultEntry s k] = t'"
      using update_prefix_drop [of k t "map (defaultEntry s) [0..<k]" "defaultEntry s k"] k len
      by (simp add: t'_def)
    have d: "\<lparr>l32 = (word_of_nat (PIC_TO_SYS_VECTOR sk k) AND kRTLOVectorNumberMask) OR
            (kRTLODeliveryModeFixed OR kRTLODestinationModePhysical OR kRTLOMaskDisabled),
      h32 = push_bit kRTHIDestinationShift (destinationAddress sk) AND kRTHIDestinationMask\<rparr>
      = defaultEntry s k"
      by (simp add: defaultEntry_def sk_def PIC_TO_SYS_VECTOR_def)
    have set: "setTableEntry sk k (defaultEntry s k) = Some (sk\<lparr>vectorTable := Some t'\<rparr>)"
      using setTableEntry_ok [OF tk lk] upd by simp
    have e: "tableEntry (sk\<lparr>vectorTable := Some t'\<rparr>) k = Some (defaultEntry s k)"
      using k len by (simp add: tableEntry_def t'_def nth_append)
    have body: "resetVectorTable_body P sk k =
        Some (writeResult P (events sk) k (defaultEntry s k),
              sk\<lparr>vectorTable := Some t',
                 events := events sk @ writeTrace P (events sk) k (defaultEntry s k)\<rparr>)"
      unfolding resetVectorTable_body_def d
      by (simp add: set e writeVectorEntry_eq writeVectorEntry_entry_eq)
    have "I (Suc k) (writeResult P (events sk) k (defaultEntry s k),
              sk\<lparr>vectorTable := Some t',
                 events := events sk @ writeTrace P (events sk) k (defaultEntry s k)\<rparr>)"
      unfolding I_def
      by (rule exI [of _ "evs @ writeTrace P (events sk) k (defaultEntry s k)"])
         (simp add: io n sk_def t'_def)
    then show ?thesis using body by (simp add: rs sk_def)
  qed
  from forVectors_upt [where I = I and body = "resetVectorTable_body P" and n = "vectorCount s",
      OF init step]
  show ?thesis unfolding I_def resetVectorTable_def using len by auto
qed

section \<open>Bit fields\<close>

lemma and_or_disj: "(m::32 word) AND f = 0 \<Longrightarrow> (x OR m) AND f = x AND f"
  by (simp add: bit.conj_disj_distrib2)

lemma and_not_disj:
  fixes m :: "32 word"
  assumes "m AND f = 0"
  shows "(x AND NOT m) AND f = x AND f"
proof (rule bit_word_eqI)
  fix n
  assume n: "n < LENGTH(32)"
  from assms have "bit (m AND f) n = False" by simp
  then have "\<not> (bit m n \<and> bit f n)" by (simp add: bit_and_iff)
  then show "bit ((x AND NOT m) AND f) n = bit (x AND f) n"
    using n by (auto simp add: bit_and_iff bit_not_iff)
qed

lemma vectorNumberField_cong:
  "l32 e' AND kRTLOVectorNumberMask = l32 e AND kRTLOVectorNumberMask \<Longrightarrow>
   vectorNumberField e' = vectorNumberField e"
  by (simp add: vectorNumberField_def GET_FIELD_def)

lemma vnf_or_mask: "vectorNumberField (e\<lparr>l32 := l32 e OR kRTLOMaskDisabled\<rparr>) = vectorNumberField e"
  by (rule vectorNumberField_cong)
     (simp add: kRTLOMaskDisabled_def kRTLOVectorNumberMask_def and_or_disj)

lemma vnf_maskedCopy [simp]: "vectorNumberField (maskedCopy e) = vectorNumberField e"
  by (simp add: maskedCopy_def vnf_or_mask)

lemma vnf_unmask:
  "vectorNumberField (e\<lparr>l32 := l32 e AND NOT kRTLOMaskDisabled\<rparr>) = vectorNumberField e"
proof (rule vectorNumberField_cong)
  have "kRTLOMaskDisabled AND kRTLOVectorNumberMask = 0"
    by (simp add: kRTLOMaskDisabled_def kRTLOVectorNumberMask_def)
  then have "(l32 e AND NOT kRTLOMaskDisabled) AND kRTLOVectorNumberMask =
      l32 e AND kRTLOVectorNumberMask"
    by (rule and_not_disj)
  then show "l32 (e\<lparr>l32 := l32 e AND NOT kRTLOMaskDisabled\<rparr>) AND kRTLOVectorNumberMask =
      l32 e AND kRTLOVectorNumberMask"
    by simp
qed

lemma vnf_unmaskedCopy [simp]: "vectorNumberField (unmaskedCopy e) = vectorNumberField e"
proof (rule vectorNumberField_cong)
  have "kRTLOMaskMask AND kRTLOVectorNumberMask = 0"
    by (simp add: kRTLOMaskMask_def kRTLOVectorNumberMask_def)
  then have "(l32 e AND NOT kRTLOMaskMask) AND kRTLOVectorNumberMask =
      l32 e AND kRTLOVectorNumberMask"
    by (rule and_not_disj)
  then show "l32 (unmaskedCopy e) AND kRTLOVectorNumberMask = l32 e AND kRTLOVectorNumberMask"
    by (simp add: unmaskedCopy_def)
qed

lemma vnf_h32 [simp]: "vectorNumberField (e\<lparr>h32 := h\<rparr>) = vectorNumberField e"
  by (simp add: vectorNumberField_def)

lemma low_byte_kept:
  fixes l :: "32 word"
  assumes "a AND 0xFF = 0" "b AND 0xFF = 0" "c AND 0xFF = 0" "d AND 0xFF = 0"
  shows "((((l AND NOT a) OR b) AND NOT c) OR d) AND 0xFF = l AND 0xFF"
  using assms by (simp only: and_or_disj and_not_disj)

lemma initVector_l32_low_byte:
  "initVector_l32 P vectorData l AND kRTLOVectorNumberMask = l AND kRTLOVectorNumberMask"
proof -
  have c: "kRTLOTriggerModeMask AND 0xFF = 0" "kRTLOTriggerModeEdge AND 0xFF = 0"
    "kRTLOTriggerModeLevel AND 0xFF = 0" "kRTLOInputPolarityMask AND 0xFF = 0"
    "kRTLOInputPolarityHigh AND 0xFF = 0" "kRTLOInputPolarityLow AND 0xFF = 0"
    by (simp_all add: kRTLOTriggerModeMask_def kRTLOTriggerModeEdge_def
      kRTLOTriggerModeLevel_def kRTLOTriggerModeShift_def kRTLOInputPolarityMask_def
      kRTLOInputPolarityHigh_def kRTLOInputPolarityLow_def kRTLOInputPolarityShift_def)
  show ?thesis
    unfolding initVector_l32_def Let_def kRTLOVectorNumberMask_def
    by (simp only: low_byte_kept c if_distrib [of "\<lambda>x. x AND 255"] if_distrib [of "\<lambda>x. x OR _"] if_distrib [of "\<lambda>x. x AND _"] split: if_splits) simp
qed

lemma vnf_initVector:
  "vectorNumberField (e\<lparr>l32 := initVector_l32 P vectorData (l32 e)\<rparr>) = vectorNumberField e"
  by (rule vectorNumberField_cong) (simp add: initVector_l32_low_byte)

lemma isMasked_maskedCopy [simp]: "isMasked (maskedCopy e)"
  by (simp add: isMasked_def maskedCopy_def kRTLOMaskMask_def kRTLOMaskDisabled_def
      bit.conj_disj_distrib2)

lemma h32_maskedCopy [simp]: "h32 (maskedCopy e) = h32 e"
  by (simp add: maskedCopy_def)

lemma isMasked_h32 [simp]: "isMasked (e\<lparr>h32 := h\<rparr>) = isMasked e"
  by (simp add: isMasked_def)

lemma unat_and_255: "unat ((word_of_nat n :: 32 word) AND 0xFF) = n mod 256"
proof -
  have "(word_of_nat n :: 32 word) AND 0xFF = take_bit 8 (word_of_nat n)"
    by (simp add: take_bit_eq_mask mask_eq_exp_minus_1)
  moreover have "unat (take_bit 8 (word_of_nat n :: 32 word)) = n mod 256"
  proof -
    have "(256::nat) dvd 2 ^ 32" by simp
    then show ?thesis
      by (simp add: unat_mod unat_of_nat take_bit_eq_mod mod_mod_cancel del: dvd_numeral_simp)
  qed
  ultimately show ?thesis by simp
qed

lemma default_low_byte:
  fixes w :: "32 word"
  shows "((w AND 0xFF) OR (0 OR 0 OR 0x10000)) AND 0xFF = w AND 0xFF"
  by (simp add: and_or_disj and.assoc)

lemma vnf_defaultEntry:
  "unat (vectorNumberField (defaultEntry s i)) = (vectorBase s + i) mod 256"
proof -
  have "vectorNumberField (defaultEntry s i) = word_of_nat (i + vectorBase s) AND 0xFF"
    unfolding vectorNumberField_def GET_FIELD_def defaultEntry_def PIC_TO_SYS_VECTOR_def
        kRTLOVectorNumberMask_def kRTLOVectorNumberShift_def kRTLODeliveryModeFixed_def
        kRTLODestinationModePhysical_def kRTLOMaskDisabled_def
    by (simp only: VectorEntry.simps push_bit_of_0 drop_bit_0 default_low_byte id_apply)
  then show ?thesis by (simp only: unat_and_255 add.commute)
qed

lemma defaultEntry_decode:
  "l32 (defaultEntry s i) AND kRTLOMaskMask = kRTLOMaskDisabled"
  "l32 (defaultEntry s i) AND kRTLODeliveryModeMask = kRTLODeliveryModeFixed"
  "l32 (defaultEntry s i) AND kRTLODestinationModeMask = kRTLODestinationModePhysical"
  by (simp_all add: defaultEntry_def kRTLOVectorNumberMask_def kRTLODeliveryModeFixed_def
        kRTLODestinationModePhysical_def kRTLOMaskDisabled_def kRTLOMaskMask_def
        kRTLODeliveryModeMask_def kRTLODestinationModeMask_def
        bit.conj_disj_distrib2 and.assoc)

lemma take_bit_8_le_255: "(apicID :: 32 word) \<le> 255 \<Longrightarrow> take_bit 8 apicID = apicID"
proof -
  assume "apicID \<le> 255"
  then have "apicID < 2 ^ 8" by (simp add: word_le_nat_alt word_less_nat_alt)
  then have "apicID AND mask 8 = apicID" by (rule less_mask_eq)
  then show ?thesis by (simp add: take_bit_eq_mask)
qed

lemma drop_push_24:
  "drop_bit 24 (push_bit 24 (d :: 32 word) AND 0xFF000000) = take_bit 8 d"
proof -
  have m: "(0xFF000000 :: 32 word) = push_bit 24 (mask 8)" by (simp add: mask_eq_exp_minus_1)
  have "drop_bit 24 (push_bit 24 d AND push_bit 24 (mask 8)) = take_bit 8 d"
    by (rule bit_word_eqI) (auto simp add: bit_simps)
  then show ?thesis unfolding m .
qed

lemma destinationField_set:
  "apicID \<le> 255 \<Longrightarrow>
   destinationField (e\<lparr>h32 := push_bit kRTHIDestinationShift apicID AND kRTHIDestinationMask\<rparr>) = apicID"
proof -
  assume a: "apicID \<le> 255"
  have "destinationField (e\<lparr>h32 := push_bit kRTHIDestinationShift apicID AND kRTHIDestinationMask\<rparr>)
      = drop_bit 24 ((push_bit 24 apicID AND 0xFF000000) AND 0xFF000000)"
    by (simp add: destinationField_def GET_FIELD_def kRTHIDestinationShift_def
        kRTHIDestinationMask_def)
  also have "\<dots> = drop_bit 24 (push_bit 24 apicID AND 0xFF000000)"
    by (simp only: and.right_idem)
  also have "\<dots> = apicID"
    by (simp only: drop_push_24 take_bit_8_le_255 [OF a])
  finally show ?thesis .
qed

section \<open>Operations on one entry\<close>

lemma tableEntry_updated:
  "i < length t \<Longrightarrow> tableEntry (s\<lparr>vectorTable := Some (t[i := e])\<rparr>) i = Some e"
  by (simp add: tableEntry_def)

lemma updateAndWrite:
  assumes "vectorTable s = Some t" and "vn < length t"
  shows "Option.bind (setTableEntry s vn e) (\<lambda>s1. writeVectorEntry P s1 vn) =
     Some (writeResult P (events s) vn e,
           s\<lparr>vectorTable := Some (t[vn := e]),
             events := events s @ writeTrace P (events s) vn e\<rparr>)"
  using assms
  by (simp add: setTableEntry_ok tableEntry_updated writeVectorEntry_eq writeVectorEntry_entry_eq)

lemma disableVectorEntry_run:
  assumes "vectorTable s = Some t" and "vn < length t"
  shows "disableVectorEntry P s vn =
     Some (writeResult P (events s) vn (maskedCopy (t ! vn)),
           s\<lparr>vectorTable := Some (t[vn := maskedCopy (t ! vn)]),
             events := events s @ writeTrace P (events s) vn (maskedCopy (t ! vn))\<rparr>)"
  using assms updateAndWrite [OF assms, of "maskedCopy (t ! vn)" P]
  by (simp add: disableVectorEntry_def tableEntry_ok maskedCopy_def)

lemma enableVectorEntry_run:
  assumes "vectorTable s = Some t" and "vn < length t"
  shows "enableVectorEntry P s vn =
     Some (writeResult P (events s) vn ((t ! vn)\<lparr>l32 := l32 (t ! vn) AND NOT kRTLOMaskDisabled\<rparr>),
           s\<lparr>vectorTable := Some (t[vn := (t ! vn)\<lparr>l32 := l32 (t ! vn) AND NOT kRTLOMaskDisabled\<rparr>]),
             events := events s @ writeTrace P (events s) vn
               ((t ! vn)\<lparr>l32 := l32 (t ! vn) AND NOT kRTLOMaskDisabled\<rparr>)\<rparr>)"
  using assms
    updateAndWrite [OF assms, of "(t ! vn)\<lparr>l32 := l32 (t ! vn) AND NOT kRTLOMaskDisabled\<rparr>" P]
  by (simp add: enableVectorEntry_def tableEntry_ok)

lemma initVector_run:
  assumes "vectorTable s = Some t" and "vn < length t" and "\<not> length vectorData < 8"
  shows "initVector P s vn vectorData =
     Some (s\<lparr>vectorTable := Some (t[vn := (t ! vn)\<lparr>l32 := initVector_l32 P vectorData (l32 (t ! vn))\<rparr>]),
             events := events s @ writeTrace P (events s) vn
               ((t ! vn)\<lparr>l32 := initVector_l32 P vectorData (l32 (t ! vn))\<rparr>)\<rparr>)"
proof -
  let ?e = "(t ! vn)\<lparr>l32 := initVector_l32 P vectorData (l32 (t ! vn))\<rparr>"
  have "initVector P s vn vectorData =
      Option.bind (Option.bind (setTableEntry s vn ?e) (\<lambda>s1. writeVectorEntry P s1 vn))
        (\<lambda>rs. Some (snd rs))"
    using assms by (simp add: initVector_def tableEntry_ok initVector_l32_def Let_def)
  then show ?thesis by (simp add: updateAndWrite [OF assms(1,2)])
qed

lemma initVector_short:
  "length vectorData < 8 \<Longrightarrow> initVector P s vn vectorData = Some s"
  by (simp add: initVector_def)

lemma prepareForDeepIdle_run:
  assumes "vectorTable s = Some t" and "length t = vectorCount s"
  shows "prepareForDeepIdle P s vn =
     (if vn < vectorCount s
      then Some (writeResult P (events s) vn (unmaskedCopy (t ! vn)),
                 s\<lparr>events := events s @ writeTrace P (events s) vn (unmaskedCopy (t ! vn))\<rparr>)
      else Some (kIOReturnBadArgument, s))"
  using assms
  by (simp add: prepareForDeepIdle_def tableEntry_ok unmaskedCopy_def writeVectorEntry_entry_eq
      Let_def)

lemma setVectorPhysicalDestination_run:
  assumes t: "vectorTable s = Some t" and vn: "vn < length t" and len: "length t = vectorCount s"
    and id: "apicID \<le> 255"
  shows "setVectorPhysicalDestination P s vn apicID =
     Some (kIOReturnSuccess,
       s\<lparr>vectorTable := Some (t[vn := (maskedCopy (t ! vn))
              \<lparr>h32 := push_bit kRTHIDestinationShift apicID AND kRTHIDestinationMask\<rparr>]),
         events := events s @ writeTrace P (events s) vn (maskedCopy (t ! vn)) @
           writeTrace P (events s @ writeTrace P (events s) vn (maskedCopy (t ! vn))) vn
             ((maskedCopy (t ! vn))
                \<lparr>h32 := push_bit kRTHIDestinationShift apicID AND kRTHIDestinationMask\<rparr>)\<rparr>)"
proof -
  define s1 where "s1 = s\<lparr>vectorTable := Some (t[vn := maskedCopy (t ! vn)]),
             events := events s @ writeTrace P (events s) vn (maskedCopy (t ! vn))\<rparr>"
  let ?e = "(maskedCopy (t ! vn))
              \<lparr>h32 := push_bit kRTHIDestinationShift apicID AND kRTHIDestinationMask\<rparr>"
  have d: "map_option snd (disableVectorEntry P s vn) = Some s1"
    by (simp add: disableVectorEntry_run [OF t vn] s1_def)
  have t1: "vectorTable s1 = Some (t[vn := maskedCopy (t ! vn)])" by (simp add: s1_def)
  have vn1: "vn < length (t[vn := maskedCopy (t ! vn)])" using vn by simp
  have e1: "tableEntry s1 vn = Some (maskedCopy (t ! vn))"
    using vn by (simp add: tableEntry_def t1)
  have w: "Option.bind (setTableEntry s1 vn ?e) (\<lambda>s2. map_option snd (writeVectorEntry P s2 vn)) =
      Some (s1\<lparr>vectorTable := Some (t[vn := ?e]),
               events := events s1 @ writeTrace P (events s1) vn ?e\<rparr>)"
    using vn by (simp add: setTableEntry_ok [OF t1 vn1] tableEntry_updated writeVectorEntry_eq
        writeVectorEntry_entry_eq)
  have guard: "\<not> (vn \<ge> vectorCount s \<or> apicID > 255)" using vn len id by auto
  have "setVectorPhysicalDestination P s vn apicID =
      Option.bind (Option.bind (setTableEntry s1 vn ?e) (\<lambda>s2. map_option snd (writeVectorEntry P s2 vn)))
        (\<lambda>s3. Some (kIOReturnSuccess, s3))"
    unfolding setVectorPhysicalDestination_def using guard by (simp add: d e1)
  then show ?thesis unfolding w by (simp add: s1_def)
qed

lemma setVectorPhysicalDestination_bad:
  "vn \<ge> vectorCount s \<or> apicID > 255 \<Longrightarrow>
   setVectorPhysicalDestination P s vn apicID = Some (kIOReturnBadArgument, s)"
  by (simp add: setVectorPhysicalDestination_def)

section \<open>Interrupt dispatch\<close>

lemma vectorAt_ok: "i < length (vectors s) \<Longrightarrow> vectorAt s i = Some (vectors s ! i)"
  by (simp add: vectorAt_def)

lemma setVector_ok:
  "i < length (vectors s) \<Longrightarrow> setVector s i v = Some (s\<lparr>vectors := (vectors s)[i := v]\<rparr>)"
  by (simp add: setVector_def)

lemma handleInterrupt_unwanted:
  assumes t: "vectorTable s = Some t" and nt: "n < length t" and nc: "n < vectorCount s"
    and nv: "n < length (vectors s)"
    and src: "source = int (vectorBase s) + int n"
    and flags: "interruptDisabledSoft (vectors s ! n) \<or> \<not> interruptRegistered (vectors s ! n)"
  shows "handleInterrupt P s source =
     Some (kIOReturnSuccess,
       s\<lparr>vectorTable := Some (t[n := maskedCopy (t ! n)]),
         events := events s @ writeTrace P (events s) n (maskedCopy (t ! n)),
         vectors := (vectors s)[n := (vectors s ! n)
            \<lparr>interruptDisabledHard := True, interruptActive := False\<rparr>]\<rparr>)"
proof -
  define s1 where "s1 = s\<lparr>vectors := (vectors s)[n := (vectors s ! n)\<lparr>interruptActive := True\<rparr>]\<rparr>"
  define v1 where "v1 = (vectors s ! n)\<lparr>interruptActive := True\<rparr>"
  define s2 where "s2 = s1\<lparr>vectors := (vectors s1)[n := v1\<lparr>interruptDisabledHard := True\<rparr>]\<rparr>"
  have vn: "SYS_TO_PIC_VECTOR s source = int n" by (simp add: SYS_TO_PIC_VECTOR_def src)
  have a1: "vectorAt s n = Some (vectors s ! n)" using nv by (rule vectorAt_ok)
  have a2: "setVector s n ((vectors s ! n)\<lparr>interruptActive := True\<rparr>) = Some s1"
    using nv by (simp add: setVector_ok s1_def)
  have nv1: "n < length (vectors s1)" using nv by (simp add: s1_def)
  have a3: "vectorAt s1 n = Some v1" using nv by (simp add: vectorAt_def s1_def v1_def)
  have fl: "\<not> (\<not> interruptDisabledSoft v1 \<and> interruptRegistered v1)"
    using flags by (auto simp add: v1_def)
  have a4: "setVector s1 n (v1\<lparr>interruptDisabledHard := True\<rparr>) = Some s2"
    using nv1 by (simp add: setVector_ok s2_def)
  have t2: "vectorTable s2 = Some t" by (simp add: s2_def s1_def t)
  define s3 where "s3 = s2\<lparr>vectorTable := Some (t[n := maskedCopy (t ! n)]),
             events := events s2 @ writeTrace P (events s2) n (maskedCopy (t ! n))\<rparr>"
  have a5: "map_option snd (disableVectorEntry P s2 n) = Some s3"
    by (simp add: disableVectorEntry_run [OF t2 nt] s3_def)
  have nv3: "n < length (vectors s3)" using nv by (simp add: s3_def s2_def s1_def)
  have a6: "vectorAt s3 n = Some (v1\<lparr>interruptDisabledHard := True\<rparr>)"
    using nv by (simp add: vectorAt_def s3_def s2_def s1_def)
  have a7: "setVector s3 n (v1\<lparr>interruptDisabledHard := True, interruptActive := False\<rparr>) =
      Some (s3\<lparr>vectors := (vectors s3)[n := v1\<lparr>interruptDisabledHard := True, interruptActive := False\<rparr>]\<rparr>)"
    using nv3 by (rule setVector_ok)
  have "handleInterrupt P s source =
      Some (kIOReturnSuccess,
        s3\<lparr>vectors := (vectors s3)[n := v1\<lparr>interruptDisabledHard := True, interruptActive := False\<rparr>]\<rparr>)"
    unfolding handleInterrupt_def Let_def vn
    using nc by (simp add: a1 a2 a3 fl a4 a5 a6 a7)
  then show ?thesis
    by (simp add: s3_def s2_def s1_def v1_def)
qed

lemma handleInterrupt_handler_disables:
  assumes nc: "n < vectorCount s" and nv: "n < length (vectors s)"
    and src: "source = int (vectorBase s) + int n"
    and flags: "\<not> interruptDisabledSoft (vectors s ! n)" "interruptRegistered (vectors s ! n)"
    and t2: "vectorTable (afterHandler P s n) = Some t2" and nt2: "n < length t2"
    and nv2: "n < length (vectors (afterHandler P s n))"
    and soft: "interruptDisabledSoft (vectors (afterHandler P s n) ! n)"
  shows "handleInterrupt P s source =
     Some (kIOReturnSuccess,
       (afterHandler P s n)
        \<lparr>vectorTable := Some (t2[n := maskedCopy (t2 ! n)]),
         events := events (afterHandler P s n) @
            writeTrace P (events (afterHandler P s n)) n (maskedCopy (t2 ! n)),
         vectors := (vectors (afterHandler P s n))[n := (vectors (afterHandler P s n) ! n)
            \<lparr>interruptDisabledHard := True, interruptActive := False\<rparr>]\<rparr>)"
proof -
  define s1 where "s1 = markActive s n"
  define v1 where "v1 = (vectors s ! n)\<lparr>interruptActive := True\<rparr>"
  define s2 where "s2 = afterHandler P s n"
  define v2 where "v2 = vectors s2 ! n"
  define s3 where "s3 = s2\<lparr>vectors := (vectors s2)[n := v2\<lparr>interruptDisabledHard := True\<rparr>]\<rparr>"
  have vn: "SYS_TO_PIC_VECTOR s source = int n" by (simp add: SYS_TO_PIC_VECTOR_def src)
  have a1: "vectorAt s n = Some (vectors s ! n)" using nv by (rule vectorAt_ok)
  have a2: "setVector s n ((vectors s ! n)\<lparr>interruptActive := True\<rparr>) = Some s1"
    using nv by (simp add: setVector_ok s1_def markActive_def)
  have a3: "vectorAt s1 n = Some v1" using nv by (simp add: vectorAt_def s1_def v1_def markActive_def)
  have fl: "\<not> interruptDisabledSoft v1 \<and> interruptRegistered v1"
    using flags by (simp add: v1_def)
  have h: "vector_handler P n (emit (HandlerCall n) s1) = s2"
    by (simp add: s2_def afterHandler_def s1_def)
  have b1: "vectorAt s2 n = Some v2" using nv2 by (simp add: vectorAt_def s2_def v2_def)
  have b2: "interruptDisabledSoft v2" using soft by (simp add: v2_def s2_def)
  have b3: "setVector s2 n (v2\<lparr>interruptDisabledHard := True\<rparr>) = Some s3"
    using nv2 by (simp add: setVector_ok s3_def s2_def)
  have t3: "vectorTable s3 = Some t2" using t2 by (simp add: s3_def s2_def)
  define s4 where "s4 = s3\<lparr>vectorTable := Some (t2[n := maskedCopy (t2 ! n)]),
             events := events s3 @ writeTrace P (events s3) n (maskedCopy (t2 ! n))\<rparr>"
  have b4: "map_option snd (disableVectorEntry P s3 n) = Some s4"
    by (simp add: disableVectorEntry_run [OF t3 nt2] s4_def)
  have nv4: "n < length (vectors s4)" using nv2 by (simp add: s4_def s3_def s2_def)
  have b5: "vectorAt s4 n = Some (v2\<lparr>interruptDisabledHard := True\<rparr>)"
    using nv2 by (simp add: vectorAt_def s4_def s3_def s2_def)
  have b6: "setVector s4 n (v2\<lparr>interruptDisabledHard := True, interruptActive := False\<rparr>) =
      Some (s4\<lparr>vectors := (vectors s4)[n := v2\<lparr>interruptDisabledHard := True, interruptActive := False\<rparr>]\<rparr>)"
    using nv4 by (rule setVector_ok)
  have "handleInterrupt P s source =
      Some (kIOReturnSuccess,
        s4\<lparr>vectors := (vectors s4)[n := v2\<lparr>interruptDisabledHard := True, interruptActive := False\<rparr>]\<rparr>)"
    unfolding handleInterrupt_def Let_def vn
    using nc by (simp add: a1 a2 a3 fl h b1 b2 b3 b4 b5 b6)
  then show ?thesis
    by (simp add: s4_def s3_def v2_def s2_def)
qed

section \<open>Auxiliary facts\<close>

lemma table_okE:
  assumes "table_ok s"
  obtains t where "vectorTable s = Some t" and "length t = vectorCount s"
  using assms by (auto simp add: table_ok_def split: option.splits)

lemma legacyWrites_io: "legacyWrites (io_events evs) = legacyWrites evs"
proof -
  have "isLegacyWrite e \<Longrightarrow> is_io e" for e by (cases e) simp_all
  then have "(\<lambda>e. is_io e \<and> isLegacyWrite e) = isLegacyWrite" by auto
  then show ?thesis by (simp add: legacyWrites_def io_events_def)
qed

lemma legacyWrites_entryWrites [simp]: "legacyWrites (entryWrites vn e) = []"
  by (simp add: legacyWrites_def entryWrites_def)

lemma legacyWrites_Nil [simp]: "legacyWrites [] = []"
  by (simp add: legacyWrites_def)

lemma legacyWrites_append [simp]: "legacyWrites (xs @ ys) = legacyWrites xs @ legacyWrites ys"
  by (simp add: legacyWrites_def)

lemma legacyWrites_concat:
  "(\<And>x. x \<in> set xs \<Longrightarrow> legacyWrites (f x) = []) \<Longrightarrow> legacyWrites (concat (map f xs)) = []"
  by (induction xs) simp_all

lemma entryWrites_in_entryWriteEvents:
  assumes "i < length t" and "e = t ! i \<or> e = maskedCopy (t ! i) \<or> e = unmaskedCopy (t ! i)"
  shows "set (entryWrites i e) \<subseteq> set (entryWriteEvents t)"
  using assms by (auto simp add: entryWriteEvents_def)

lemma concat_in_entryWriteEvents:
  assumes "n \<le> length t"
    and "\<And>i. i < n \<Longrightarrow> set (f i) \<subseteq> set (entryWriteEvents t)"
  shows "set (concat (map f [0..<n])) \<subseteq> set (entryWriteEvents t)"
proof
  fix x assume "x \<in> set (concat (map f [0..<n]))"
  then obtain i where "i < n" and "x \<in> set (f i)" by auto
  with assms(2) [of i] show "x \<in> set (entryWriteEvents t)" by blast
qed

lemma or_and_not_mask:
  fixes x :: "32 word"
  shows "(x OR m) AND NOT m = x AND NOT m"
  by (rule bit_word_eqI) (auto simp add: bit_and_iff bit_or_iff bit_not_iff)

lemma maskedCopy_mask_bit_only:
  "h32 (maskedCopy e) = h32 e"
  "l32 (maskedCopy e) AND NOT kRTLOMaskMask = l32 e AND NOT kRTLOMaskMask"
proof -
  show "h32 (maskedCopy e) = h32 e" by (simp add: maskedCopy_def)
  have "kRTLOMaskDisabled = kRTLOMaskMask"
    by (simp add: kRTLOMaskDisabled_def kRTLOMaskMask_def)
  then have "l32 (maskedCopy e) = l32 e OR kRTLOMaskMask" by (simp add: maskedCopy_def)
  then show "l32 (maskedCopy e) AND NOT kRTLOMaskMask = l32 e AND NOT kRTLOMaskMask"
    by (simp only: or_and_not_mask)
qed

lemma unmaskedCopy_mask_bit_only:
  "h32 (unmaskedCopy e) = h32 e"
  "l32 (unmaskedCopy e) AND NOT kRTLOMaskMask = l32 e AND NOT kRTLOMaskMask"
proof -
  show "h32 (unmaskedCopy e) = h32 e" by (simp add: unmaskedCopy_def)
  have "l32 (unmaskedCopy e) = l32 e AND NOT kRTLOMaskMask" by (simp add: unmaskedCopy_def)
  then show "l32 (unmaskedCopy e) AND NOT kRTLOMaskMask = l32 e AND NOT kRTLOMaskMask"
    by (simp only: and.right_idem)
qed

lemmas model_defs =
  tableEntry_def setTableEntry_def writeVectorEntry_def
  writeVectorEntry_entry_def unlockRV_def indexWrite_def outb_def emit_def
  IOSimpleLockLockDisableInterrupt_def Let_def upt_rec

lemmas layout_defs =
  kIndexID_def kIndexRTLO_def kIndexRTHI_def
  kRTLOVectorNumberMask_def kRTLOVectorNumberShift_def
  kRTLODeliveryModeMask_def kRTLODeliveryModeShift_def kRTLODeliveryModeFixed_def
  kRTLODestinationModeMask_def kRTLODestinationModeShift_def kRTLODestinationModePhysical_def
  kRTLOInputPolarityMask_def kRTLOInputPolarityShift_def kRTLOInputPolarityHigh_def
  kRTLOInputPolarityLow_def kRTLOTriggerModeMask_def kRTLOTriggerModeShift_def
  kRTLOTriggerModeEdge_def kRTLOTriggerModeLevel_def
  kRTLOMaskMask_def kRTLOMaskShift_def kRTLOMaskEnabled_def kRTLOMaskDisabled_def
  kRTHIDestinationMask_def kRTHIDestinationShift_def

lemmas example_defs =
  examplePlatform_def exampleAPIC_def exampleTable_def idleVector_def

lemma sameVectorNumbers_events [simp]: "sameVectorNumbers s (s\<lparr>events := evs\<rparr>)"
  by (simp add: sameVectorNumbers_def)

lemma sameVectorNumbers_update:
  assumes "vectorTable s = Some t" and "vn < length t"
    and "vectorNumberField e' = vectorNumberField (t ! vn)"
  shows "sameVectorNumbers s (s\<lparr>vectorTable := Some (t[vn := e']), events := evs\<rparr>)"
proof -
  have "map vectorNumberField (t[vn := e']) = (map vectorNumberField t)[vn := vectorNumberField e']"
    by (rule map_update)
  also have "\<dots> = (map vectorNumberField t)[vn := map vectorNumberField t ! vn]"
    using assms(2,3) by simp
  also have "\<dots> = map vectorNumberField t" by (rule list_update_id)
  finally show ?thesis using assms(1) by (simp add: sameVectorNumbers_def)
qed

lemma writeTrace_handler [simp]:
  "writeTrace (P\<lparr>vector_handler := h\<rparr>) evs vn e = writeTrace P evs vn e"
  by (simp add: writeTrace_def writeResult_def)

lemma writeTrace_shape:
  "writeTrace P evs vn e = Lock # entryWrites vn e @ [Unlock (writeResult P evs vn e)]"
  by (simp add: writeTrace_def)

lemma hwEntry_Nil [simp]: "hwEntry vn e [] = e"
  by (simp add: hwEntry_def)

lemma hwEntry_Cons [simp]: "hwEntry vn e (ev # evs) = hwEntry vn (applyEvent vn ev e) evs"
  by (simp add: hwEntry_def)

lemma RTLO_neq_RTHI [simp]: "kIndexRTHI + vn * 2 \<noteq> kIndexRTLO + vn * 2"
  by (simp add: kIndexRTLO_def kIndexRTHI_def)

text \<open>
  The two write steps of \<open>setVectorPhysicalDestination\<close>, replayed on the device: after
  every prefix of them the device's entry is masked or has the destination it had before.
\<close>

lemma mask_before_destination:
  assumes m1: "isMasked e1" and l: "l32 e2 = l32 e1"
    and p: "prefix pre (Lock # entryWrites vn e1 @ [Unlock r1] @
                        Lock # entryWrites vn e2 @ [Unlock r2])"
  shows "isMasked (hwEntry vn e0 pre) \<or> h32 (hwEntry vn e0 pre) = h32 e0"
proof -
  have m: "isMasked (e\<lparr>l32 := l32 e1\<rparr>)" for e :: VectorEntry
    using m1 by (simp add: isMasked_def)
  from p have "pre \<in> set (prefixes (Lock # entryWrites vn e1 @ [Unlock r1] @
                        Lock # entryWrites vn e2 @ [Unlock r2]))"
    by (simp only: in_set_prefixes)
  then show ?thesis
    by (auto simp add: entryWrites_def m l)
qed

section \<open>The claims\<close>

text \<open>
  Claim C1, as stated, fails. A controller with \<open>_vectorBase = 256\<close> and one vector: after
  \<open>resetVectorTable\<close> the stored low word of entry 0 is 0x10000, whose vector-number field
  is 0, while \<open>vectorBase + 0\<close> is 256. The code stores
  \<open>PIC_TO_SYS_VECTOR(vectorNumber) & kRTLOVectorNumberMask\<close>, the low eight bits.
\<close>

theorem vector_number_field_not_vectorBase:
  "resetVectorTable examplePlatform baseAPIC =
     Some (kIOReturnSuccess,
       baseAPIC\<lparr>vectorTable := Some [\<lparr>l32 = 0x10000, h32 = 0\<rparr>],
         events := [Lock, IndexWrite 16 0x10000, IndexWrite 17 0, Unlock kIOReturnSuccess]\<rparr>) \<and>
   vectorNumberField \<lparr>l32 = 0x10000, h32 = 0\<rparr> = 0 \<and>
   vectorBase baseAPIC + 0 = 256"
  by (simp add: resetVectorTable_def resetVectorTable_body_def model_defs layout_defs
      example_defs baseAPIC_def PIC_TO_SYS_VECTOR_def GET_FIELD_def vectorNumberField_def)

text \<open>
  Claim C1, amended. On a controller with an allocated table, \<open>resetVectorTable\<close> returns
  and leaves in entry \<open>i\<close> the vector-number field \<open>(vectorBase + i) mod 256\<close>, which is
  \<open>vectorBase + i\<close> when that is at most 255. Every mutating operation returns and leaves
  \<open>_vectorBase\<close>, \<open>_vectorCount\<close> and the vector-number field of every stored entry as they
  were: \<open>initVector\<close> (trigger mode and polarity) and mask/unmask for a vector \<open>vn\<close> in
  range, \<open>setVectorPhysicalDestination\<close> and \<open>prepareForDeepIdle\<close> for any index \<open>m\<close>,
  \<open>prepareForSleep\<close> and \<open>resumeFromSleep\<close>.
\<close>

theorem vector_number_fields_kept:
  assumes t: "vectorTable s = Some t" and len: "length t = vectorCount s"
    and vn: "vn < vectorCount s"
  shows "(\<exists>r s'. resetVectorTable P s = Some (r, s') \<and>
            vectorBase s' = vectorBase s \<and> vectorCount s' = vectorCount s \<and>
            map_option (map (\<lambda>e. unat (vectorNumberField e))) (vectorTable s') =
              Some (map (\<lambda>i. (vectorBase s + i) mod 256) [0..<vectorCount s])) \<and>
         (\<exists>s'. initVector P s vn vectorData = Some s' \<and> sameVectorNumbers s s') \<and>
         (\<exists>r s'. setVectorPhysicalDestination P s m apicID = Some (r, s') \<and>
            sameVectorNumbers s s') \<and>
         (\<exists>s'. disableVectorHard P s vn = Some s' \<and> sameVectorNumbers s s') \<and>
         (\<exists>s'. enableVector P s vn = Some s' \<and> sameVectorNumbers s s') \<and>
         (\<exists>r s'. prepareForSleep P s = Some (r, s') \<and> sameVectorNumbers s s') \<and>
         (\<exists>r s'. resumeFromSleep P s = Some (r, s') \<and> sameVectorNumbers s s') \<and>
         (\<exists>r s'. prepareForDeepIdle P s m = Some (r, s') \<and> sameVectorNumbers s s')"
proof (intro conjI)
  have vnt: "vn < length t" using vn len by simp
  from resetVectorTable_run [OF t len, of P] obtain evs where
    "resetVectorTable P s =
       Some (lastResult (unlock_results evs),
             s\<lparr>vectorTable := Some (map (defaultEntry s) [0..<vectorCount s]),
               events := events s @ evs\<rparr>)"
    by blast
  then show "\<exists>r s'. resetVectorTable P s = Some (r, s') \<and>
            vectorBase s' = vectorBase s \<and> vectorCount s' = vectorCount s \<and>
            map_option (map (\<lambda>e. unat (vectorNumberField e))) (vectorTable s') =
              Some (map (\<lambda>i. (vectorBase s + i) mod 256) [0..<vectorCount s])"
    by (simp add: vnf_defaultEntry comp_def)
  show "\<exists>s'. initVector P s vn vectorData = Some s' \<and> sameVectorNumbers s s'"
  proof (cases "length vectorData < 8")
    case True
    then show ?thesis by (simp add: initVector_short sameVectorNumbers_def)
  next
    case False
    show ?thesis
      unfolding initVector_run [OF t vnt False]
      by (simp add: sameVectorNumbers_update [OF t vnt] vnf_initVector)
  qed
  show "\<exists>r s'. setVectorPhysicalDestination P s m apicID = Some (r, s') \<and>
            sameVectorNumbers s s'"
  proof (cases "m \<ge> vectorCount s \<or> apicID > 255")
    case True
    then show ?thesis
      by (simp add: setVectorPhysicalDestination_bad sameVectorNumbers_def)
  next
    case False
    then have mt: "m < length t" and id: "apicID \<le> 255" using len by auto
    show ?thesis
      unfolding setVectorPhysicalDestination_run [OF t mt len id]
      by (simp add: sameVectorNumbers_update [OF t mt])
  qed
  show "\<exists>s'. disableVectorHard P s vn = Some s' \<and> sameVectorNumbers s s'"
    unfolding disableVectorHard_def disableVectorEntry_run [OF t vnt]
    by (simp add: sameVectorNumbers_update [OF t vnt])
  show "\<exists>s'. enableVector P s vn = Some s' \<and> sameVectorNumbers s s'"
    unfolding enableVector_def enableVectorEntry_run [OF t vnt]
    by (simp add: sameVectorNumbers_update [OF t vnt] vnf_unmask)
  from prepareForSleep_run [OF t len, of P]
  show "\<exists>r s'. prepareForSleep P s = Some (r, s') \<and> sameVectorNumbers s s'"
    using sameVectorNumbers_events by blast
  from resumeFromSleep_run [OF t len, of P]
  show "\<exists>r s'. resumeFromSleep P s = Some (r, s') \<and> sameVectorNumbers s s'"
    using sameVectorNumbers_events by blast
  show "\<exists>r s'. prepareForDeepIdle P s m = Some (r, s') \<and> sameVectorNumbers s s'"
    unfolding prepareForDeepIdle_run [OF t len]
    by (simp add: sameVectorNumbers_def)
qed

text \<open>
  Claim C1, amended, on the example controller: vectors 0x40 and 0x41, \<open>initVector\<close> and
  mask/unmask on vector 1, a new destination 3 for vector 0.
\<close>

theorem vector_number_fields_kept_witness:
  "vectorTable exampleAPIC = Some exampleTable \<and> length exampleTable = vectorCount exampleAPIC \<and>
   (1::nat) < vectorCount exampleAPIC \<and>
   (\<exists>r s'. resetVectorTable examplePlatform exampleAPIC = Some (r, s') \<and>
      vectorBase s' = vectorBase exampleAPIC \<and> vectorCount s' = vectorCount exampleAPIC \<and>
      map_option (map (\<lambda>e. unat (vectorNumberField e))) (vectorTable s') = Some [0x40, 0x41]) \<and>
   (\<exists>s'. initVector examplePlatform exampleAPIC 1 exampleData = Some s' \<and>
      sameVectorNumbers exampleAPIC s') \<and>
   (\<exists>r s'. setVectorPhysicalDestination examplePlatform exampleAPIC 0 3 = Some (r, s') \<and>
      sameVectorNumbers exampleAPIC s') \<and>
   (\<exists>s'. disableVectorHard examplePlatform exampleAPIC 1 = Some s' \<and>
      sameVectorNumbers exampleAPIC s') \<and>
   (\<exists>s'. enableVector examplePlatform exampleAPIC 1 = Some s' \<and>
      sameVectorNumbers exampleAPIC s') \<and>
   (\<exists>r s'. prepareForSleep examplePlatform exampleAPIC = Some (r, s') \<and>
      sameVectorNumbers exampleAPIC s') \<and>
   (\<exists>r s'. resumeFromSleep examplePlatform exampleAPIC = Some (r, s') \<and>
      sameVectorNumbers exampleAPIC s') \<and>
   (\<exists>r s'. prepareForDeepIdle examplePlatform exampleAPIC 0 = Some (r, s') \<and>
      sameVectorNumbers exampleAPIC s')"
proof -
  have h1: "vectorTable exampleAPIC = Some exampleTable" by (simp add: exampleAPIC_def)
  have h2: "length exampleTable = vectorCount exampleAPIC"
    by (simp add: exampleAPIC_def exampleTable_def)
  have h3: "(1::nat) < vectorCount exampleAPIC" by (simp add: exampleAPIC_def)
  have b: "map (\<lambda>i. (vectorBase exampleAPIC + i) mod 256) [0..<vectorCount exampleAPIC] =
      [0x40, 0x41]"
    by (simp add: exampleAPIC_def upt_rec)
  note inst = vector_number_fields_kept [OF h1 h2 h3, where P = examplePlatform
      and vectorData = exampleData and m = 0 and apicID = 3, unfolded b]
  show ?thesis by (rule conjI [OF h1 conjI [OF h2 conjI [OF h3 inst]]])
qed

text \<open>
  Claim C2, as stated, fails. A controller with \<open>_vectorBase = 255\<close> and two vectors: after
  \<open>resetVectorTable\<close> the stored low word of entry 1 is 0x10000, whose vector-number field
  is 0, while \<open>vectorBase + 1\<close> is 256.
\<close>

theorem resetVectorTable_truncates_vector_number:
  "resetVectorTable examplePlatform wideAPIC =
     Some (kIOReturnSuccess,
       wideAPIC\<lparr>vectorTable := Some [\<lparr>l32 = 0x100FF, h32 = 0\<rparr>, \<lparr>l32 = 0x10000, h32 = 0\<rparr>],
         events :=
           [Lock, IndexWrite 16 0x100FF, IndexWrite 17 0, Unlock kIOReturnSuccess,
            Lock, IndexWrite 18 0x10000, IndexWrite 19 0, Unlock kIOReturnSuccess]\<rparr>) \<and>
   GET_FIELD (l32 \<lparr>l32 = 0x10000, h32 = 0\<rparr>) kRTLOVectorNumberMask kRTLOVectorNumberShift = 0 \<and>
   vectorBase wideAPIC + 1 = 256"
  by (simp add: resetVectorTable_def resetVectorTable_body_def model_defs layout_defs
      example_defs wideAPIC_def PIC_TO_SYS_VECTOR_def GET_FIELD_def)

text \<open>
  Claim C2, amended. On a controller with an allocated table, \<open>resetVectorTable\<close> returns,
  and for every \<open>i < _vectorCount\<close> the stored entry \<open>i\<close> decodes to: vector-number field
  \<open>(vectorBase + i) mod 256\<close> (so \<open>vectorBase + i\<close> when that is at most 255), mask bit
  masked, delivery mode fixed, destination mode physical.
\<close>

theorem resetVectorTable_entries:
  assumes t: "vectorTable s = Some t" and len: "length t = vectorCount s"
    and i: "i < vectorCount s"
  shows "\<exists>r s' e. resetVectorTable P s = Some (r, s') \<and>
           vectorBase s' = vectorBase s \<and> vectorCount s' = vectorCount s \<and>
           tableEntry s' i = Some e \<and>
           unat (GET_FIELD (l32 e) kRTLOVectorNumberMask kRTLOVectorNumberShift) =
             (vectorBase s + i) mod 256 \<and>
           l32 e AND kRTLOMaskMask = kRTLOMaskDisabled \<and>
           l32 e AND kRTLODeliveryModeMask = kRTLODeliveryModeFixed \<and>
           l32 e AND kRTLODestinationModeMask = kRTLODestinationModePhysical"
proof -
  from resetVectorTable_run [OF t len, of P] obtain evs where
    run: "resetVectorTable P s =
       Some (lastResult (unlock_results evs),
             s\<lparr>vectorTable := Some (map (defaultEntry s) [0..<vectorCount s]),
               events := events s @ evs\<rparr>)"
    by blast
  define s' where "s' = s\<lparr>vectorTable := Some (map (defaultEntry s) [0..<vectorCount s]),
               events := events s @ evs\<rparr>"
  have e: "tableEntry s' i = Some (defaultEntry s i)"
    using i by (simp add: tableEntry_def s'_def)
  have "vectorBase s' = vectorBase s" "vectorCount s' = vectorCount s"
    by (simp_all add: s'_def)
  with run e vnf_defaultEntry [of s i] defaultEntry_decode [of s i]
  show ?thesis
    unfolding s'_def [symmetric] vectorNumberField_def by blast
qed

text \<open>
  Claim C2, amended, on the example controller: entry 1 after reset has vector number 0x41.
\<close>

theorem resetVectorTable_entries_witness:
  "vectorTable exampleAPIC = Some exampleTable \<and> length exampleTable = vectorCount exampleAPIC \<and>
   (1::nat) < vectorCount exampleAPIC \<and>
   (\<exists>r s' e. resetVectorTable examplePlatform exampleAPIC = Some (r, s') \<and>
      tableEntry s' 1 = Some e \<and>
      unat (GET_FIELD (l32 e) kRTLOVectorNumberMask kRTLOVectorNumberShift) = 0x41 \<and>
      l32 e AND kRTLOMaskMask = kRTLOMaskDisabled \<and>
      l32 e AND kRTLODeliveryModeMask = kRTLODeliveryModeFixed \<and>
      l32 e AND kRTLODestinationModeMask = kRTLODestinationModePhysical)"
proof -
  have h1: "vectorTable exampleAPIC = Some exampleTable" by (simp add: exampleAPIC_def)
  have h2: "length exampleTable = vectorCount exampleAPIC"
    by (simp add: exampleAPIC_def exampleTable_def)
  have h3: "(1::nat) < vectorCount exampleAPIC" by (simp add: exampleAPIC_def)
  have b: "(vectorBase exampleAPIC + 1) mod 256 = 0x41" by (simp add: exampleAPIC_def)
  from resetVectorTable_entries [OF h1 h2 h3, of examplePlatform] h1 h2 h3
  show ?thesis unfolding b by auto
qed

text \<open>
  Claim C3. On every controller with an allocated table, \<open>prepareForSleep\<close> returns,
  \<open>resumeFromSleep\<close> run on the state it leaves returns, and the stored table after each
  of them is the stored table before sleep: every 64-bit entry, so trigger mode, polarity
  and destination of every vector, is what it was.
\<close>

theorem sleep_then_wake_keeps_table:
  assumes "table_ok s"
  shows "\<exists>r1 s1 r2 s2. prepareForSleep P s = Some (r1, s1) \<and>
           resumeFromSleep P s1 = Some (r2, s2) \<and>
           vectorTable s1 = vectorTable s \<and> vectorTable s2 = vectorTable s"
proof -
  from assms obtain t where t: "vectorTable s = Some t" and len: "length t = vectorCount s"
    by (rule table_okE)
  from prepareForSleep_run [OF t len, of P] obtain evs1 where
    p: "prepareForSleep P s =
          Some (lastResult (unlock_results evs1), s\<lparr>events := events s @ evs1\<rparr>)"
    by blast
  define s1 where "s1 = s\<lparr>events := events s @ evs1\<rparr>"
  have t1: "vectorTable s1 = Some t" and len1: "length t = vectorCount s1"
    using t len by (simp_all add: s1_def)
  from resumeFromSleep_run [OF t1 len1, of P] obtain evs2 where
    r: "resumeFromSleep P s1 =
          Some (lastResult (unlock_results evs2), s1\<lparr>events := events s1 @ evs2\<rparr>)"
    by blast
  have v2: "vectorTable (s1\<lparr>events := events s1 @ evs2\<rparr>) = vectorTable s"
    using t t1 by simp
  have v1: "vectorTable s1 = vectorTable s"
    using t t1 by simp
  from p have p': "prepareForSleep P s = Some (lastResult (unlock_results evs1), s1)"
    by (simp add: s1_def)
  from p' r v1 v2 show ?thesis by blast
qed

text \<open>
  Claim C3 on the example controller.
\<close>

theorem sleep_then_wake_keeps_table_witness:
  "table_ok exampleAPIC \<and>
   (\<exists>r1 s1 r2 s2. prepareForSleep examplePlatform exampleAPIC = Some (r1, s1) \<and>
      resumeFromSleep examplePlatform s1 = Some (r2, s2) \<and>
      vectorTable s1 = Some exampleTable \<and> vectorTable s2 = Some exampleTable)"
proof -
  have ok: "table_ok exampleAPIC"
    by (simp add: table_ok_def exampleAPIC_def exampleTable_def)
  have "vectorTable exampleAPIC = Some exampleTable" by (simp add: exampleAPIC_def)
  with sleep_then_wake_keeps_table [OF ok, of examplePlatform] ok show ?thesis by simp
qed

text \<open>
  Claim C4, as stated, fails. On the example controller \<open>prepareForSleep\<close> returns success
  after two write steps of masked entries, and its history has no port write to a legacy
  controller.
\<close>

theorem prepareForSleep_no_legacy_mask:
  "prepareForSleep examplePlatform exampleAPIC =
     Some (kIOReturnSuccess,
       exampleAPIC\<lparr>events :=
         [Lock, IndexWrite 16 0x10040, IndexWrite 17 0, Unlock kIOReturnSuccess,
          Lock, IndexWrite 18 0x1A041, IndexWrite 19 0x01000000, Unlock kIOReturnSuccess]\<rparr>) \<and>
   legacyWrites
     [Lock, IndexWrite 16 0x10040, IndexWrite 17 0, Unlock kIOReturnSuccess,
      Lock, IndexWrite 18 0x1A041, IndexWrite 19 0x01000000, Unlock kIOReturnSuccess] = []"
  by (simp add: prepareForSleep_def prepareForSleep_body_def model_defs layout_defs
      example_defs legacyWrites_def)

text \<open>
  Claim C4, amended. On a controller with an allocated table, \<open>prepareForSleep\<close> returns
  after writing a masked copy of every stored entry to the device, in index order, and
  writes nothing to the legacy controllers. The legacy mask is written by
  \<open>resumeFromSleep\<close>: its first two accesses are the writes of 0xFF to the mask registers of
  the second and the first legacy controller, and they are its only port writes.
\<close>

theorem legacy_mask_on_wake_only:
  assumes t: "vectorTable s = Some t" and len: "length t = vectorCount s"
  shows "(\<exists>r evs. prepareForSleep P s = Some (r, s\<lparr>events := events s @ evs\<rparr>) \<and>
            io_events evs =
              concat (map (\<lambda>i. entryWrites i (maskedCopy (t ! i))) [0..<vectorCount s]) \<and>
            legacyWrites evs = []) \<and>
         (\<exists>r evs. resumeFromSleep P s = Some (r, s\<lparr>events := events s @ evs\<rparr>) \<and>
            take 2 (io_events evs) =
              [Outb (kPIC_OCW1 kPIC2BasePort) 0xFF, Outb (kPIC_OCW1 kPIC1BasePort) 0xFF] \<and>
            legacyWrites evs =
              [Outb (kPIC_OCW1 kPIC2BasePort) 0xFF, Outb (kPIC_OCW1 kPIC1BasePort) 0xFF]) \<and>
         isMasked (maskedCopy e)"
proof (intro conjI)
  from prepareForSleep_run [OF t len, of P] obtain evs where
    run: "prepareForSleep P s =
      Some (lastResult (unlock_results evs), s\<lparr>events := events s @ evs\<rparr>)"
    and io: "io_events evs =
      concat (map (\<lambda>i. entryWrites i (maskedCopy (t ! i))) [0..<vectorCount s])"
    by blast
  have "legacyWrites (io_events evs) = []"
    unfolding io by (rule legacyWrites_concat) simp
  then have "legacyWrites evs = []" by (simp add: legacyWrites_io)
  with run io
  show "\<exists>r evs. prepareForSleep P s = Some (r, s\<lparr>events := events s @ evs\<rparr>) \<and>
            io_events evs =
              concat (map (\<lambda>i. entryWrites i (maskedCopy (t ! i))) [0..<vectorCount s]) \<and>
            legacyWrites evs = []"
    by blast
next
  let ?pre = "[Outb (kPIC_OCW1 kPIC2BasePort) 0xFF, Outb (kPIC_OCW1 kPIC1BasePort) 0xFF]"
  from resumeFromSleep_run [OF t len, of P] obtain evs where
    run: "resumeFromSleep P s =
      Some (lastResult (unlock_results evs), s\<lparr>events := events s @ evs\<rparr>)"
    and io: "io_events evs = (?pre @ [IndexWrite kIndexID (apicIDRegister s)]) @
            concat (map (\<lambda>i. entryWrites i (maskedCopy (t ! i)) @ entryWrites i (t ! i))
                      [0..<vectorCount s])"
    by auto
  have "legacyWrites (concat (map (\<lambda>i. entryWrites i (maskedCopy (t ! i)) @ entryWrites i (t ! i))
                      [0..<vectorCount s])) = []"
    by (rule legacyWrites_concat) simp
  then have "legacyWrites (io_events evs) = ?pre"
    unfolding io by (simp add: legacyWrites_def)
  then have l: "legacyWrites evs = ?pre" by (simp add: legacyWrites_io)
  have "take 2 (io_events evs) = ?pre" unfolding io by simp
  with run l
  show "\<exists>r evs. resumeFromSleep P s = Some (r, s\<lparr>events := events s @ evs\<rparr>) \<and>
            take 2 (io_events evs) = ?pre \<and> legacyWrites evs = ?pre"
    by blast
next
  show "isMasked (maskedCopy e)" by simp
qed

text \<open>
  Claim C4, amended, on the example controller.
\<close>

theorem legacy_mask_on_wake_only_witness:
  "vectorTable exampleAPIC = Some exampleTable \<and> length exampleTable = vectorCount exampleAPIC \<and>
   (\<exists>r evs. prepareForSleep examplePlatform exampleAPIC =
        Some (r, exampleAPIC\<lparr>events := events exampleAPIC @ evs\<rparr>) \<and>
      io_events evs = [IndexWrite 16 0x10040, IndexWrite 17 0,
                       IndexWrite 18 0x1A041, IndexWrite 19 0x01000000] \<and>
      legacyWrites evs = []) \<and>
   (\<exists>r evs. resumeFromSleep examplePlatform exampleAPIC =
        Some (r, exampleAPIC\<lparr>events := events exampleAPIC @ evs\<rparr>) \<and>
      legacyWrites evs =
        [Outb (kPIC_OCW1 kPIC2BasePort) 0xFF, Outb (kPIC_OCW1 kPIC1BasePort) 0xFF])"
proof -
  have h1: "vectorTable exampleAPIC = Some exampleTable" by (simp add: exampleAPIC_def)
  have h2: "length exampleTable = vectorCount exampleAPIC"
    by (simp add: exampleAPIC_def exampleTable_def)
  have io: "concat (map (\<lambda>i. entryWrites i (maskedCopy (exampleTable ! i)))
              [0..<vectorCount exampleAPIC]) =
            [IndexWrite 16 0x10040, IndexWrite 17 0, IndexWrite 18 0x1A041, IndexWrite 19 0x01000000]"
    by (simp add: exampleAPIC_def exampleTable_def entryWrites_def maskedCopy_def upt_rec
        layout_defs)
  from legacy_mask_on_wake_only [OF h1 h2, of examplePlatform] h1 h2 io
  show ?thesis by auto
qed

text \<open>
  Claim C5. When \<open>handleInterrupt\<close> is called for a vector \<open>n\<close> of the controller that is
  soft-disabled or not registered, it returns success; the vector's hard-disable flag is
  set and its active flag cleared; the stored entry is masked and written to the device in
  one write step, which is all that happens; and the result is the same whatever the
  handlers are, so no handler runs.
\<close>

theorem handleInterrupt_masks_unwanted:
  assumes t: "vectorTable s = Some t" and len: "length t = vectorCount s"
    and lenv: "length (vectors s) = vectorCount s" and n: "n < vectorCount s"
    and flags: "interruptDisabledSoft (vectors s ! n) \<or> \<not> interruptRegistered (vectors s ! n)"
  shows "(\<exists>r. handleInterrupt P s (int (vectorBase s) + int n) =
            Some (kIOReturnSuccess,
              s\<lparr>vectorTable := Some (t[n := maskedCopy (t ! n)]),
                events := events s @ Lock # entryWrites n (maskedCopy (t ! n)) @ [Unlock r],
                vectors := (vectors s)[n := (vectors s ! n)
                  \<lparr>interruptDisabledHard := True, interruptActive := False\<rparr>]\<rparr>)) \<and>
         isMasked (maskedCopy (t ! n)) \<and>
         (\<forall>h. handleInterrupt (P\<lparr>vector_handler := h\<rparr>) s (int (vectorBase s) + int n) =
              handleInterrupt P s (int (vectorBase s) + int n))"
proof -
  have nt: "n < length t" and nv: "n < length (vectors s)" using n len lenv by simp_all
  note run = handleInterrupt_unwanted [OF t nt n nv refl flags]
  have "\<exists>r. handleInterrupt P s (int (vectorBase s) + int n) =
            Some (kIOReturnSuccess,
              s\<lparr>vectorTable := Some (t[n := maskedCopy (t ! n)]),
                events := events s @ Lock # entryWrites n (maskedCopy (t ! n)) @ [Unlock r],
                vectors := (vectors s)[n := (vectors s ! n)
                  \<lparr>interruptDisabledHard := True, interruptActive := False\<rparr>]\<rparr>)"
    unfolding run [of P] writeTrace_shape by blast
  moreover have "handleInterrupt (P\<lparr>vector_handler := h\<rparr>) s (int (vectorBase s) + int n) =
              handleInterrupt P s (int (vectorBase s) + int n)" for h
    unfolding run by simp
  ultimately show ?thesis by simp
qed

text \<open>
  Claim C5 on the example controller: interrupt 0x40, whose vector has no handler.
\<close>

theorem handleInterrupt_masks_unwanted_witness:
  "vectorTable exampleAPIC = Some exampleTable \<and> length exampleTable = vectorCount exampleAPIC \<and>
   length (vectors exampleAPIC) = vectorCount exampleAPIC \<and> (0::nat) < vectorCount exampleAPIC \<and>
   \<not> interruptRegistered (vectors exampleAPIC ! 0) \<and>
   (\<exists>r. handleInterrupt examplePlatform exampleAPIC 0x40 =
      Some (kIOReturnSuccess,
        exampleAPIC\<lparr>vectorTable := Some [\<lparr>l32 = 0x10040, h32 = 0\<rparr>, \<lparr>l32 = 0xA041, h32 = 0x01000000\<rparr>],
          events := [Lock, IndexWrite 16 0x10040, IndexWrite 17 0, Unlock r],
          vectors := [idleVector\<lparr>interruptDisabledHard := True\<rparr>,
                      idleVector\<lparr>interruptRegistered := True\<rparr>]\<rparr>))"
proof -
  have h1: "vectorTable exampleAPIC = Some exampleTable" by (simp add: exampleAPIC_def)
  have h2: "length exampleTable = vectorCount exampleAPIC"
    by (simp add: exampleAPIC_def exampleTable_def)
  have h3: "length (vectors exampleAPIC) = vectorCount exampleAPIC" by (simp add: exampleAPIC_def)
  have h4: "(0::nat) < vectorCount exampleAPIC" by (simp add: exampleAPIC_def)
  have h5: "\<not> interruptRegistered (vectors exampleAPIC ! 0)"
    by (simp add: exampleAPIC_def idleVector_def)
  from h5 have h5': "interruptDisabledSoft (vectors exampleAPIC ! 0) \<or>
      \<not> interruptRegistered (vectors exampleAPIC ! 0)" by simp
  from handleInterrupt_masks_unwanted [OF h1 h2 h3 h4 h5', of examplePlatform]
  have "\<exists>r. handleInterrupt examplePlatform exampleAPIC (int (vectorBase exampleAPIC) + int 0) =
            Some (kIOReturnSuccess,
              exampleAPIC\<lparr>vectorTable := Some (exampleTable[0 := maskedCopy (exampleTable ! 0)]),
                events := events exampleAPIC @
                  Lock # entryWrites 0 (maskedCopy (exampleTable ! 0)) @ [Unlock r],
                vectors := (vectors exampleAPIC)[0 := (vectors exampleAPIC ! 0)
                  \<lparr>interruptDisabledHard := True, interruptActive := False\<rparr>]\<rparr>)"
    by blast
  then have "\<exists>r. handleInterrupt examplePlatform exampleAPIC 0x40 =
      Some (kIOReturnSuccess,
        exampleAPIC\<lparr>vectorTable := Some [\<lparr>l32 = 0x10040, h32 = 0\<rparr>, \<lparr>l32 = 0xA041, h32 = 0x01000000\<rparr>],
          events := [Lock, IndexWrite 16 0x10040, IndexWrite 17 0, Unlock r],
          vectors := [idleVector\<lparr>interruptDisabledHard := True\<rparr>,
                      idleVector\<lparr>interruptRegistered := True\<rparr>]\<rparr>)"
    by (simp add: exampleAPIC_def exampleTable_def maskedCopy_def entryWrites_def idleVector_def
        layout_defs)
  with h1 h2 h3 h4 h5 show ?thesis by simp
qed

text \<open>
  Claim C6. When \<open>handleInterrupt\<close> is called for a registered vector \<open>n\<close> that is not
  soft-disabled, and the handler returns a state in which the vector's soft-disable flag is
  set (and the table and the vectors are still allocated), then \<open>handleInterrupt\<close> returns
  success with the vector's hard-disable flag set, and after the handler the stored entry
  is masked and written to the device in one write step.
\<close>

theorem handleInterrupt_masks_after_handler:
  assumes lenv: "length (vectors s) = vectorCount s" and n: "n < vectorCount s"
    and flags: "\<not> interruptDisabledSoft (vectors s ! n)" "interruptRegistered (vectors s ! n)"
    and t2: "vectorTable (afterHandler P s n) = Some t2" and nt2: "n < length t2"
    and nv2: "n < length (vectors (afterHandler P s n))"
    and soft: "interruptDisabledSoft (vectors (afterHandler P s n) ! n)"
  shows "\<exists>r. handleInterrupt P s (int (vectorBase s) + int n) =
     Some (kIOReturnSuccess,
       (afterHandler P s n)
        \<lparr>vectorTable := Some (t2[n := maskedCopy (t2 ! n)]),
         events := events (afterHandler P s n) @
            Lock # entryWrites n (maskedCopy (t2 ! n)) @ [Unlock r],
         vectors := (vectors (afterHandler P s n))[n := (vectors (afterHandler P s n) ! n)
            \<lparr>interruptDisabledHard := True, interruptActive := False\<rparr>]\<rparr>) \<and>
     isMasked (maskedCopy (t2 ! n))"
proof -
  have nv: "n < length (vectors s)" using n lenv by simp
  have "\<exists>r. handleInterrupt P s (int (vectorBase s) + int n) =
     Some (kIOReturnSuccess,
       (afterHandler P s n)
        \<lparr>vectorTable := Some (t2[n := maskedCopy (t2 ! n)]),
         events := events (afterHandler P s n) @
            Lock # entryWrites n (maskedCopy (t2 ! n)) @ [Unlock r],
         vectors := (vectors (afterHandler P s n))[n := (vectors (afterHandler P s n) ! n)
            \<lparr>interruptDisabledHard := True, interruptActive := False\<rparr>]\<rparr>)"
    unfolding handleInterrupt_handler_disables [OF n nv refl flags t2 nt2 nv2 soft]
      writeTrace_shape
    by blast
  then show ?thesis by simp
qed

text \<open>
  Claim C6 on the example controller with handlers that soft-disable their vector:
  interrupt 0x41.
\<close>

theorem handleInterrupt_masks_after_handler_witness:
  "length (vectors exampleAPIC) = vectorCount exampleAPIC \<and> (1::nat) < vectorCount exampleAPIC \<and>
   \<not> interruptDisabledSoft (vectors exampleAPIC ! 1) \<and>
   interruptRegistered (vectors exampleAPIC ! 1) \<and>
   interruptDisabledSoft (vectors (afterHandler disablingPlatform exampleAPIC 1) ! 1) \<and>
   (\<exists>r. handleInterrupt disablingPlatform exampleAPIC 0x41 =
      Some (kIOReturnSuccess,
        exampleAPIC\<lparr>vectorTable := Some [\<lparr>l32 = 0x10040, h32 = 0\<rparr>, \<lparr>l32 = 0x1A041, h32 = 0x01000000\<rparr>],
          events := [HandlerCall 1, Lock, IndexWrite 18 0x1A041, IndexWrite 19 0x01000000, Unlock r],
          vectors := [idleVector,
                      idleVector\<lparr>interruptRegistered := True, interruptDisabledSoft := True,
                        interruptDisabledHard := True\<rparr>]\<rparr>))"
proof -
  have ah: "afterHandler disablingPlatform exampleAPIC 1 =
      exampleAPIC\<lparr>vectors := [idleVector,
          idleVector\<lparr>interruptRegistered := True, interruptActive := True,
            interruptDisabledSoft := True\<rparr>],
        events := [HandlerCall 1]\<rparr>"
    by (simp add: afterHandler_def markActive_def disablingPlatform_def examplePlatform_def
        exampleAPIC_def emit_def idleVector_def)
  have h1: "length (vectors exampleAPIC) = vectorCount exampleAPIC" by (simp add: exampleAPIC_def)
  have h2: "(1::nat) < vectorCount exampleAPIC" by (simp add: exampleAPIC_def)
  have h3: "\<not> interruptDisabledSoft (vectors exampleAPIC ! 1)"
    by (simp add: exampleAPIC_def idleVector_def)
  have h4: "interruptRegistered (vectors exampleAPIC ! 1)"
    by (simp add: exampleAPIC_def idleVector_def)
  have h5: "vectorTable (afterHandler disablingPlatform exampleAPIC 1) = Some exampleTable"
    unfolding ah by (simp add: exampleAPIC_def)
  have h6: "1 < length exampleTable" by (simp add: exampleTable_def)
  have h7: "1 < length (vectors (afterHandler disablingPlatform exampleAPIC 1))"
    unfolding ah by simp
  have h8: "interruptDisabledSoft (vectors (afterHandler disablingPlatform exampleAPIC 1) ! 1)"
    unfolding ah by (simp add: idleVector_def)
  from handleInterrupt_masks_after_handler [OF h1 h2 h3 h4 h5 h6 h7 h8]
  have "\<exists>r. handleInterrupt disablingPlatform exampleAPIC 0x41 =
      Some (kIOReturnSuccess,
        exampleAPIC\<lparr>vectorTable := Some [\<lparr>l32 = 0x10040, h32 = 0\<rparr>, \<lparr>l32 = 0x1A041, h32 = 0x01000000\<rparr>],
          events := [HandlerCall 1, Lock, IndexWrite 18 0x1A041, IndexWrite 19 0x01000000, Unlock r],
          vectors := [idleVector,
                      idleVector\<lparr>interruptRegistered := True, interruptDisabledSoft := True,
                        interruptDisabledHard := True\<rparr>]\<rparr>)"
    unfolding ah
    by (simp add: exampleAPIC_def exampleTable_def maskedCopy_def entryWrites_def idleVector_def
        layout_defs)
  with h1 h2 h3 h4 h8 show ?thesis by simp
qed

text \<open>
  Claim C7. For a vector \<open>vn < _vectorCount\<close> and \<open>apicID \<le> 255\<close> on a controller with an
  allocated table, \<open>setVectorPhysicalDestination\<close> returns success; the stored entry has
  destination field \<open>apicID\<close> and is masked; the device sees two write steps, the masked
  entry with the old destination and then the masked entry with the new one; and after
  every prefix of these events the device's entry is masked or still has the destination
  it had before the call.
\<close>

theorem setVectorPhysicalDestination_ok:
  assumes t: "vectorTable s = Some t" and len: "length t = vectorCount s"
    and vn: "vn < vectorCount s" and id: "apicID \<le> 255"
  shows "\<exists>s' e' r1 r2. setVectorPhysicalDestination P s vn apicID = Some (kIOReturnSuccess, s') \<and>
           vectorTable s' = Some (t[vn := e']) \<and>
           destinationField e' = apicID \<and> isMasked e' \<and>
           l32 e' = l32 (t ! vn) OR kRTLOMaskDisabled \<and>
           events s' = events s @
             Lock # entryWrites vn (maskedCopy (t ! vn)) @ [Unlock r1] @
             Lock # entryWrites vn e' @ [Unlock r2] \<and>
           (\<forall>pre e0. prefix pre (drop (length (events s)) (events s')) \<longrightarrow>
              isMasked (hwEntry vn e0 pre) \<or> h32 (hwEntry vn e0 pre) = h32 e0)"
proof -
  have vnt: "vn < length t" using vn len by simp
  define e' where "e' = (maskedCopy (t ! vn))
      \<lparr>h32 := push_bit kRTHIDestinationShift apicID AND kRTHIDestinationMask\<rparr>"
  define r1 where "r1 = writeResult P (events s) vn (maskedCopy (t ! vn))"
  define r2 where "r2 = writeResult P (events s @ writeTrace P (events s) vn (maskedCopy (t ! vn))) vn e'"
  define new where "new = Lock # entryWrites vn (maskedCopy (t ! vn)) @ [Unlock r1] @
             Lock # entryWrites vn e' @ [Unlock r2]"
  define s' where "s' = s\<lparr>vectorTable := Some (t[vn := e']), events := events s @ new\<rparr>"
  have run: "setVectorPhysicalDestination P s vn apicID = Some (kIOReturnSuccess, s')"
    unfolding setVectorPhysicalDestination_run [OF t vnt len id]
    by (simp add: s'_def new_def e'_def r1_def r2_def writeTrace_shape)
  have d: "destinationField e' = apicID"
    unfolding e'_def by (rule destinationField_set [OF id])
  have m: "isMasked e'" by (simp add: e'_def)
  have l: "l32 e' = l32 (t ! vn) OR kRTLOMaskDisabled" by (simp add: e'_def maskedCopy_def)
  have l': "l32 e' = l32 (maskedCopy (t ! vn))" by (simp add: e'_def)
  have pre: "isMasked (hwEntry vn e0 pre) \<or> h32 (hwEntry vn e0 pre) = h32 e0"
    if "prefix pre (drop (length (events s)) (events s'))" for pre e0
  proof -
    from that have "prefix pre (Lock # entryWrites vn (maskedCopy (t ! vn)) @ [Unlock r1] @
             Lock # entryWrites vn e' @ [Unlock r2])"
      by (simp add: s'_def new_def)
    with isMasked_maskedCopy [of "t ! vn"] l'
    show ?thesis by (rule mask_before_destination)
  qed
  have tbl: "vectorTable s' = Some (t[vn := e'])" and ev: "events s' = events s @ new"
    by (simp_all add: s'_def)
  from run tbl d m l ev pre show ?thesis unfolding new_def by blast
qed

text \<open>
  Claim C7 on the example controller: destination 3 for vector 1, whose device entry
  is unmasked before the call; the prefix ends with the first write of the low word.
\<close>

theorem setVectorPhysicalDestination_ok_witness:
  "vectorTable exampleAPIC = Some exampleTable \<and> length exampleTable = vectorCount exampleAPIC \<and>
   (1::nat) < vectorCount exampleAPIC \<and> (3::32 word) \<le> 255 \<and>
   (\<exists>s' e'. setVectorPhysicalDestination examplePlatform exampleAPIC 1 3 =
        Some (kIOReturnSuccess, s') \<and>
      vectorTable s' = Some (exampleTable[1 := e']) \<and>
      destinationField e' = 3 \<and> isMasked e' \<and>
      (isMasked (hwEntry 1 (exampleTable ! 1) [Lock, IndexWrite 18 0x1A041]) \<or>
       h32 (hwEntry 1 (exampleTable ! 1) [Lock, IndexWrite 18 0x1A041]) = h32 (exampleTable ! 1)))"
proof -
  have h1: "vectorTable exampleAPIC = Some exampleTable" by (simp add: exampleAPIC_def)
  have h2: "length exampleTable = vectorCount exampleAPIC"
    by (simp add: exampleAPIC_def exampleTable_def)
  have h3: "(1::nat) < vectorCount exampleAPIC" by (simp add: exampleAPIC_def)
  have h4: "(3::32 word) \<le> 255" by simp
  from setVectorPhysicalDestination_ok [OF h1 h2 h3 h4, of examplePlatform]
  obtain s' e' r1 r2 where
    run: "setVectorPhysicalDestination examplePlatform exampleAPIC 1 3 =
        Some (kIOReturnSuccess, s')"
    and tbl: "vectorTable s' = Some (exampleTable[1 := e'])"
    and d: "destinationField e' = 3" and m: "isMasked e'"
    and ev: "events s' = events exampleAPIC @
             Lock # entryWrites 1 (maskedCopy (exampleTable ! 1)) @ [Unlock r1] @
             Lock # entryWrites 1 e' @ [Unlock r2]"
    and pre: "\<forall>pre e0. prefix pre (drop (length (events exampleAPIC)) (events s')) \<longrightarrow>
              isMasked (hwEntry 1 e0 pre) \<or> h32 (hwEntry 1 e0 pre) = h32 e0"
    by blast
  have "prefix [Lock, IndexWrite 18 0x1A041] (drop (length (events exampleAPIC)) (events s'))"
    unfolding ev
    by (simp add: exampleAPIC_def exampleTable_def entryWrites_def maskedCopy_def layout_defs)
  with pre have "isMasked (hwEntry 1 (exampleTable ! 1) [Lock, IndexWrite 18 0x1A041]) \<or>
       h32 (hwEntry 1 (exampleTable ! 1) [Lock, IndexWrite 18 0x1A041]) = h32 (exampleTable ! 1)"
    by blast
  with h1 h2 h3 h4 run tbl d m show ?thesis by blast
qed

text \<open>
  Claim C8. With \<open>vectorNumber \<ge> _vectorCount\<close> or \<open>apicID > 255\<close>,
  \<open>setVectorPhysicalDestination\<close> returns \<open>kIOReturnBadArgument\<close> and the controller is as it
  was: no stored entry changes and nothing is written to the device.
\<close>

theorem setVectorPhysicalDestination_rejects:
  assumes "vectorNumber \<ge> vectorCount s \<or> apicID > 255"
  shows "setVectorPhysicalDestination P s vectorNumber apicID = Some (kIOReturnBadArgument, s)"
  using assms by (simp add: setVectorPhysicalDestination_def)

text \<open>
  Claim C8 on the example controller: destination 256 for vector 0, and index 2 of a
  table of two.
\<close>

theorem setVectorPhysicalDestination_rejects_witness:
  "(256::32 word) > 255 \<and> (0::nat) < vectorCount exampleAPIC \<and>
   setVectorPhysicalDestination examplePlatform exampleAPIC 0 256 =
     Some (kIOReturnBadArgument, exampleAPIC) \<and>
   (2::nat) \<ge> vectorCount exampleAPIC \<and>
   setVectorPhysicalDestination examplePlatform exampleAPIC 2 3 =
     Some (kIOReturnBadArgument, exampleAPIC)"
proof -
  have h1: "(256::32 word) > 255" by simp
  have h2: "(2::nat) \<ge> vectorCount exampleAPIC" by (simp add: exampleAPIC_def)
  have h3: "(0::nat) < vectorCount exampleAPIC" by (simp add: exampleAPIC_def)
  from h1 have a: "0 \<ge> vectorCount exampleAPIC \<or> (256::32 word) > 255" by simp
  from h2 have b: "2 \<ge> vectorCount exampleAPIC \<or> (3::32 word) > 255" by simp
  from setVectorPhysicalDestination_rejects [OF a, of examplePlatform]
    setVectorPhysicalDestination_rejects [OF b, of examplePlatform] h1 h2 h3
  show ?thesis by blast
qed

text \<open>
  Claim C9, as stated, fails. On the example controller, with a platform whose first write
  step fails and whose later ones succeed, \<open>resetVectorTable\<close> writes both entries and
  returns \<open>kIOReturnSuccess\<close>: the results of its write steps are
  \<open>kIOReturnError\<close>, \<open>kIOReturnSuccess\<close>.
\<close>

theorem resetVectorTable_loses_failure:
  "resetVectorTable failingPlatform exampleAPIC =
     Some (kIOReturnSuccess,
       exampleAPIC\<lparr>vectorTable := Some [\<lparr>l32 = 0x10040, h32 = 0\<rparr>, \<lparr>l32 = 0x10041, h32 = 0\<rparr>],
         events :=
           [Lock, IndexWrite 16 0x10040, IndexWrite 17 0, Unlock kIOReturnError,
            Lock, IndexWrite 18 0x10041, IndexWrite 19 0, Unlock kIOReturnSuccess]\<rparr>) \<and>
   unlock_results
     [Lock, IndexWrite 16 0x10040, IndexWrite 17 0, Unlock kIOReturnError,
      Lock, IndexWrite 18 0x10041, IndexWrite 19 0, Unlock kIOReturnSuccess] =
     [kIOReturnError, kIOReturnSuccess]"
  by (simp add: resetVectorTable_def resetVectorTable_body_def model_defs layout_defs
      example_defs failingPlatform_def PIC_TO_SYS_VECTOR_def)

text \<open>
  Claim C9, amended. On a controller with an allocated table, \<open>resetVectorTable\<close> writes
  every entry to the device, in index order, whatever the results of the write steps, and
  returns the result of its last write step (\<open>kIOReturnError\<close> when there is no vector).
\<close>

theorem resetVectorTable_returns_last_result:
  assumes t: "vectorTable s = Some t" and len: "length t = vectorCount s"
  shows "\<exists>evs s'. resetVectorTable P s = Some (lastResult (unlock_results evs), s') \<and>
           events s' = events s @ evs \<and>
           length (unlock_results evs) = vectorCount s \<and>
           io_events evs =
             concat (map (\<lambda>i. entryWrites i (defaultEntry s i)) [0..<vectorCount s])"
proof -
  from resetVectorTable_run [OF t len, of P] obtain evs where
    "resetVectorTable P s =
       Some (lastResult (unlock_results evs),
             s\<lparr>vectorTable := Some (map (defaultEntry s) [0..<vectorCount s]),
               events := events s @ evs\<rparr>)"
    "io_events evs = concat (map (\<lambda>i. entryWrites i (defaultEntry s i)) [0..<vectorCount s])"
    "length (unlock_results evs) = vectorCount s"
    by blast
  then show ?thesis
    by (intro exI [of _ evs]
        exI [of _ "s\<lparr>vectorTable := Some (map (defaultEntry s) [0..<vectorCount s]),
               events := events s @ evs\<rparr>"]) simp
qed

text \<open>
  Claim C9, amended, on the example controller with the platform whose first write step
  fails.
\<close>

theorem resetVectorTable_returns_last_result_witness:
  "vectorTable exampleAPIC = Some exampleTable \<and> length exampleTable = vectorCount exampleAPIC \<and>
   (\<exists>evs s'. resetVectorTable failingPlatform exampleAPIC =
        Some (lastResult (unlock_results evs), s') \<and>
      events s' = events exampleAPIC @ evs \<and>
      length (unlock_results evs) = 2 \<and>
      io_events evs = [IndexWrite 16 0x10040, IndexWrite 17 0, IndexWrite 18 0x10041, IndexWrite 19 0])"
proof -
  have h1: "vectorTable exampleAPIC = Some exampleTable" by (simp add: exampleAPIC_def)
  have h2: "length exampleTable = vectorCount exampleAPIC"
    by (simp add: exampleAPIC_def exampleTable_def)
  have n: "vectorCount exampleAPIC = 2" by (simp add: exampleAPIC_def)
  have io: "concat (map (\<lambda>i. entryWrites i (defaultEntry exampleAPIC i))
              [0..<vectorCount exampleAPIC]) =
            [IndexWrite 16 0x10040, IndexWrite 17 0, IndexWrite 18 0x10041, IndexWrite 19 0]"
    by (simp add: exampleAPIC_def entryWrites_def defaultEntry_def upt_rec
        layout_defs PIC_TO_SYS_VECTOR_def)
  from resetVectorTable_returns_last_result [OF h1 h2, of failingPlatform] h1 h2
  show ?thesis unfolding io unfolding n by auto
qed

text \<open>
  Claim C10, as stated, fails. On the example controller \<open>resumeFromSleep\<close> begins with
  the two port writes to the legacy controllers and the write of the saved ID register
  value to register 0: none of the three is a write of a stored entry or of a masked or
  unmasked copy of one.
\<close>

theorem resumeFromSleep_other_writes:
  "resumeFromSleep examplePlatform exampleAPIC =
     Some (kIOReturnSuccess,
       exampleAPIC\<lparr>events :=
         [Outb (kPIC_OCW1 kPIC2BasePort) 0xFF, Outb (kPIC_OCW1 kPIC1BasePort) 0xFF,
          IndexWrite 0 0x02000000,
          Lock, IndexWrite 16 0x10040, IndexWrite 17 0, Unlock kIOReturnSuccess,
          Lock, IndexWrite 16 0x10040, IndexWrite 17 0, Unlock kIOReturnSuccess,
          Lock, IndexWrite 18 0x1A041, IndexWrite 19 0x01000000, Unlock kIOReturnSuccess,
          Lock, IndexWrite 18 0xA041, IndexWrite 19 0x01000000, Unlock kIOReturnSuccess]\<rparr>) \<and>
   Outb (kPIC_OCW1 kPIC2BasePort) 0xFF \<notin> set (entryWriteEvents exampleTable) \<and>
   Outb (kPIC_OCW1 kPIC1BasePort) 0xFF \<notin> set (entryWriteEvents exampleTable) \<and>
   IndexWrite 0 0x02000000 \<notin> set (entryWriteEvents exampleTable)"
  by (simp add: resumeFromSleep_def resumeFromSleep_body_def model_defs layout_defs
      example_defs entryWriteEvents_def entryWrites_def maskedCopy_def unmaskedCopy_def)

text \<open>
  Claim C10, amended. On a controller with an allocated table, \<open>prepareForSleep\<close>,
  \<open>resumeFromSleep\<close> and \<open>prepareForDeepIdle\<close> return a state that differs from the one they
  started on in its history only, so the stored table is the same. Every write to the
  device's redirection table that they issue carries a stored entry or a local copy of
  one that differs from it in the mask bit only: \<open>prepareForSleep\<close> writes a masked copy
  of every stored entry and nothing else; \<open>prepareForDeepIdle\<close> an unmasked copy of the
  one stored entry, or nothing when the index is out of range; \<open>resumeFromSleep\<close> first
  writes 0xFF to the two legacy controllers and the saved value to the ID register, and
  after these three accesses, for every vector, a masked copy of the stored entry and the
  stored entry itself.
\<close>

theorem power_transitions_keep_table:
  assumes t: "vectorTable s = Some t" and len: "length t = vectorCount s"
  shows "(\<exists>r evs. prepareForSleep P s = Some (r, s\<lparr>events := events s @ evs\<rparr>) \<and>
            io_events evs =
              concat (map (\<lambda>i. entryWrites i (maskedCopy (t ! i))) [0..<vectorCount s]) \<and>
            set (io_events evs) \<subseteq> set (entryWriteEvents t)) \<and>
         (\<exists>r evs. resumeFromSleep P s = Some (r, s\<lparr>events := events s @ evs\<rparr>) \<and>
            io_events evs =
              [Outb (kPIC_OCW1 kPIC2BasePort) 0xFF, Outb (kPIC_OCW1 kPIC1BasePort) 0xFF,
               IndexWrite kIndexID (apicIDRegister s)] @
              concat (map (\<lambda>i. entryWrites i (maskedCopy (t ! i)) @ entryWrites i (t ! i))
                        [0..<vectorCount s]) \<and>
            set (drop 3 (io_events evs)) \<subseteq> set (entryWriteEvents t)) \<and>
         (\<exists>r evs. prepareForDeepIdle P s vn = Some (r, s\<lparr>events := events s @ evs\<rparr>) \<and>
            io_events evs =
              (if vn < vectorCount s then entryWrites vn (unmaskedCopy (t ! vn)) else []) \<and>
            set (io_events evs) \<subseteq> set (entryWriteEvents t)) \<and>
         (\<forall>evs. vectorTable (s\<lparr>events := events s @ evs\<rparr>) = Some t) \<and>
         h32 (maskedCopy e) = h32 e \<and>
         l32 (maskedCopy e) AND NOT kRTLOMaskMask = l32 e AND NOT kRTLOMaskMask \<and>
         h32 (unmaskedCopy e) = h32 e \<and>
         l32 (unmaskedCopy e) AND NOT kRTLOMaskMask = l32 e AND NOT kRTLOMaskMask"
proof (intro conjI)
  have n: "vectorCount s \<le> length t" using len by simp
  have sub1: "set (concat (map (\<lambda>i. entryWrites i (maskedCopy (t ! i))) [0..<vectorCount s]))
      \<subseteq> set (entryWriteEvents t)"
    using n
  proof (rule concat_in_entryWriteEvents)
    fix i assume "i < vectorCount s"
    then have "i < length t" using len by simp
    then show "set (entryWrites i (maskedCopy (t ! i))) \<subseteq> set (entryWriteEvents t)"
      by (rule entryWrites_in_entryWriteEvents) simp
  qed
  have sub2: "set (concat (map (\<lambda>i. entryWrites i (maskedCopy (t ! i)) @ entryWrites i (t ! i))
      [0..<vectorCount s])) \<subseteq> set (entryWriteEvents t)"
    using n
  proof (rule concat_in_entryWriteEvents)
    fix i assume "i < vectorCount s"
    then have i: "i < length t" using len by simp
    from i have "set (entryWrites i (maskedCopy (t ! i))) \<subseteq> set (entryWriteEvents t)"
      by (rule entryWrites_in_entryWriteEvents) simp
    moreover from i have "set (entryWrites i (t ! i)) \<subseteq> set (entryWriteEvents t)"
      by (rule entryWrites_in_entryWriteEvents) simp
    ultimately show "set (entryWrites i (maskedCopy (t ! i)) @ entryWrites i (t ! i))
        \<subseteq> set (entryWriteEvents t)"
      by simp
  qed
  from prepareForSleep_run [OF t len, of P] obtain evs where
    "prepareForSleep P s =
       Some (lastResult (unlock_results evs), s\<lparr>events := events s @ evs\<rparr>)"
    and io: "io_events evs =
       concat (map (\<lambda>i. entryWrites i (maskedCopy (t ! i))) [0..<vectorCount s])"
    by blast
  moreover from io sub1 have "set (io_events evs) \<subseteq> set (entryWriteEvents t)" by simp
  ultimately
  show "\<exists>r evs. prepareForSleep P s = Some (r, s\<lparr>events := events s @ evs\<rparr>) \<and>
            io_events evs =
              concat (map (\<lambda>i. entryWrites i (maskedCopy (t ! i))) [0..<vectorCount s]) \<and>
            set (io_events evs) \<subseteq> set (entryWriteEvents t)"
    by blast
  from resumeFromSleep_run [OF t len, of P] obtain evs where
    "resumeFromSleep P s =
       Some (lastResult (unlock_results evs), s\<lparr>events := events s @ evs\<rparr>)"
    and io: "io_events evs =
              [Outb (kPIC_OCW1 kPIC2BasePort) 0xFF, Outb (kPIC_OCW1 kPIC1BasePort) 0xFF,
               IndexWrite kIndexID (apicIDRegister s)] @
              concat (map (\<lambda>i. entryWrites i (maskedCopy (t ! i)) @ entryWrites i (t ! i))
                        [0..<vectorCount s])"
    by blast
  moreover from io sub2 have "set (drop 3 (io_events evs)) \<subseteq> set (entryWriteEvents t)"
    by simp
  ultimately
  show "\<exists>r evs. resumeFromSleep P s = Some (r, s\<lparr>events := events s @ evs\<rparr>) \<and>
            io_events evs =
              [Outb (kPIC_OCW1 kPIC2BasePort) 0xFF, Outb (kPIC_OCW1 kPIC1BasePort) 0xFF,
               IndexWrite kIndexID (apicIDRegister s)] @
              concat (map (\<lambda>i. entryWrites i (maskedCopy (t ! i)) @ entryWrites i (t ! i))
                        [0..<vectorCount s]) \<and>
            set (drop 3 (io_events evs)) \<subseteq> set (entryWriteEvents t)"
    by blast
  show "\<exists>r evs. prepareForDeepIdle P s vn = Some (r, s\<lparr>events := events s @ evs\<rparr>) \<and>
            io_events evs =
              (if vn < vectorCount s then entryWrites vn (unmaskedCopy (t ! vn)) else []) \<and>
            set (io_events evs) \<subseteq> set (entryWriteEvents t)"
  proof (cases "vn < vectorCount s")
    case True
    then have "vn < length t" using len by simp
    then have "set (entryWrites vn (unmaskedCopy (t ! vn))) \<subseteq> set (entryWriteEvents t)"
      by (rule entryWrites_in_entryWriteEvents) simp
    with True show ?thesis
      by (intro exI [of _ "writeResult P (events s) vn (unmaskedCopy (t ! vn))"]
          exI [of _ "writeTrace P (events s) vn (unmaskedCopy (t ! vn))"])
         (simp add: prepareForDeepIdle_run [OF t len])
  next
    case False
    then show ?thesis
      by (intro exI [of _ kIOReturnBadArgument] exI [of _ "[]"])
         (simp add: prepareForDeepIdle_run [OF t len])
  qed
  show "\<forall>evs. vectorTable (s\<lparr>events := events s @ evs\<rparr>) = Some t"
    using t by simp
  show "h32 (maskedCopy e) = h32 e"
    and "l32 (maskedCopy e) AND NOT kRTLOMaskMask = l32 e AND NOT kRTLOMaskMask"
    by (rule maskedCopy_mask_bit_only)+
  show "h32 (unmaskedCopy e) = h32 e"
    and "l32 (unmaskedCopy e) AND NOT kRTLOMaskMask = l32 e AND NOT kRTLOMaskMask"
    by (rule unmaskedCopy_mask_bit_only)+
qed

text \<open>
  Claim C10, amended, on the example controller, with \<open>prepareForDeepIdle\<close> on vector 0.
\<close>

theorem power_transitions_keep_table_witness:
  "vectorTable exampleAPIC = Some exampleTable \<and> length exampleTable = vectorCount exampleAPIC \<and>
   (\<exists>r evs. prepareForSleep examplePlatform exampleAPIC =
        Some (r, exampleAPIC\<lparr>events := events exampleAPIC @ evs\<rparr>) \<and>
      io_events evs =
        [IndexWrite 16 0x10040, IndexWrite 17 0, IndexWrite 18 0x1A041, IndexWrite 19 0x01000000] \<and>
      set (io_events evs) \<subseteq> set (entryWriteEvents exampleTable)) \<and>
   (\<exists>r evs. resumeFromSleep examplePlatform exampleAPIC =
        Some (r, exampleAPIC\<lparr>events := events exampleAPIC @ evs\<rparr>) \<and>
      io_events evs =
        [Outb (kPIC_OCW1 kPIC2BasePort) 0xFF, Outb (kPIC_OCW1 kPIC1BasePort) 0xFF,
         IndexWrite 0 0x02000000,
         IndexWrite 16 0x10040, IndexWrite 17 0, IndexWrite 16 0x10040, IndexWrite 17 0,
         IndexWrite 18 0x1A041, IndexWrite 19 0x01000000,
         IndexWrite 18 0xA041, IndexWrite 19 0x01000000] \<and>
      set (drop 3 (io_events evs)) \<subseteq> set (entryWriteEvents exampleTable)) \<and>
   (\<exists>r evs. prepareForDeepIdle examplePlatform exampleAPIC 0 =
        Some (r, exampleAPIC\<lparr>events := events exampleAPIC @ evs\<rparr>) \<and>
      io_events evs = [IndexWrite 16 0x40, IndexWrite 17 0] \<and>
      set (io_events evs) \<subseteq> set (entryWriteEvents exampleTable))"
proof -
  have h1: "vectorTable exampleAPIC = Some exampleTable" by (simp add: exampleAPIC_def)
  have h2: "length exampleTable = vectorCount exampleAPIC"
    by (simp add: exampleAPIC_def exampleTable_def)
  have io1: "concat (map (\<lambda>i. entryWrites i (maskedCopy (exampleTable ! i)))
              [0..<vectorCount exampleAPIC]) =
            [IndexWrite 16 0x10040, IndexWrite 17 0, IndexWrite 18 0x1A041, IndexWrite 19 0x01000000]"
    by (simp add: exampleAPIC_def exampleTable_def entryWrites_def maskedCopy_def upt_rec
        layout_defs)
  have io2: "[Outb (kPIC_OCW1 kPIC2BasePort) 0xFF, Outb (kPIC_OCW1 kPIC1BasePort) 0xFF,
               IndexWrite kIndexID (apicIDRegister exampleAPIC)] @
              concat (map (\<lambda>i. entryWrites i (maskedCopy (exampleTable ! i)) @
                               entryWrites i (exampleTable ! i))
                        [0..<vectorCount exampleAPIC]) =
        [Outb (kPIC_OCW1 kPIC2BasePort) 0xFF, Outb (kPIC_OCW1 kPIC1BasePort) 0xFF,
         IndexWrite 0 0x02000000,
         IndexWrite 16 0x10040, IndexWrite 17 0, IndexWrite 16 0x10040, IndexWrite 17 0,
         IndexWrite 18 0x1A041, IndexWrite 19 0x01000000,
         IndexWrite 18 0xA041, IndexWrite 19 0x01000000]"
    by (simp add: exampleAPIC_def exampleTable_def entryWrites_def maskedCopy_def upt_rec
        layout_defs)
  have io3: "(if 0 < vectorCount exampleAPIC
              then entryWrites 0 (unmaskedCopy (exampleTable ! 0)) else []) =
       [IndexWrite 16 0x40, IndexWrite 17 0]"
    by (simp add: exampleAPIC_def exampleTable_def entryWrites_def unmaskedCopy_def layout_defs)
  note inst = power_transitions_keep_table [OF h1 h2, where P = examplePlatform and vn = 0
      and e = "exampleTable ! 0"]
  note a = inst [THEN conjunct1, unfolded io1]
  note b = inst [THEN conjunct2, THEN conjunct1, unfolded io2]
  note c = inst [THEN conjunct2, THEN conjunct2, THEN conjunct1, unfolded io3]
  show ?thesis by (rule conjI [OF h1 conjI [OF h2 conjI [OF a conjI [OF b c]]]])
qed

end
